theory Spec2Isabelle
  imports Complex_Main
begin

section \<open>Python values\<close>

text \<open>
  The proxy handles decoded JSON: the values \<open>resp.json()\<close> returns and the payloads it
  builds. A Python \<open>dict\<close> is an association list read with \<open>map_of\<close> (the source only
  ever calls \<open>.get\<close>); \<open>None\<close> is \<open>JNull\<close>. Strings are ASCII strings.
\<close>

datatype pyfloat = Finite real | PosInf | NegInf | NaN

datatype json =
    JNull
  | JBool bool
  | JInt int
  | JFloat pyfloat
  | JStr string
  | JList "json list"
  | JDict "(string \<times> json) list"

text \<open>Python truth value testing, as used by \<open>not x\<close>, \<open>x or y\<close> and \<open>if x\<close>.\<close>

fun truthy :: "json \<Rightarrow> bool" where
  "truthy JNull = False"
| "truthy (JBool b) = b"
| "truthy (JInt n) = (n \<noteq> 0)"
| "truthy (JFloat f) = (f \<noteq> Finite 0)"
| "truthy (JStr s) = (s \<noteq> [])"
| "truthy (JList xs) = (xs \<noteq> [])"
| "truthy (JDict d) = (d \<noteq> [])"

text \<open>\<open>a or b\<close>\<close>

definition py_or :: "json \<Rightarrow> json \<Rightarrow> json" where
  "py_or a b = (if truthy a then a else b)"

text \<open>\<open>d.get(k)\<close> and \<open>d.get(k, default)\<close>\<close>

definition dict_get :: "(string \<times> json) list \<Rightarrow> string \<Rightarrow> json" where
  "dict_get d k = (case map_of d k of None \<Rightarrow> JNull | Some v \<Rightarrow> v)"

definition dict_get_default :: "(string \<times> json) list \<Rightarrow> string \<Rightarrow> json \<Rightarrow> json" where
  "dict_get_default d k dflt = (case map_of d k of None \<Rightarrow> dflt | Some v \<Rightarrow> v)"

text \<open>\<open>s.startswith(p)\<close>\<close>

definition startswith :: "string \<Rightarrow> string \<Rightarrow> bool" where
  "startswith s p = (take (length p) s = p)"

section \<open>Exceptions\<close>

text \<open>
  Every \<open>raise\<close> of the source and every exception of the libraries it calls is a value.
  The f-string messages are kept as the data they are formatted from.
\<close>

datatype httpx_exn = TimeoutException | NetworkError | OtherTransportError

datatype auth_error =
    MissingCredentials
  | TokenStatus int string
  | NoAccessToken

datatype api_error =
    BaseEmpty
  | NetworkExhausted "httpx_exn option"
  | NoResponse
  | RemoteStatus string int string

datatype exn =
    LegifranceAuthError auth_error
  | LegifranceApiError api_error
  | HttpxError httpx_exn
  | JSONDecodeError
  | AttributeError
  | TypeError
  | ValueError
  | OverflowError
  | TooBroadError
  | NotFoundError string string "string option"
  | AmbiguousError nat "json list"

section \<open>resolver.py: identifier extraction\<close>

text \<open>\<open>isinstance(v, str) and v.startswith("LEGIARTI")\<close>: the identifier appended, if any.\<close>

definition legiarti_of :: "json \<Rightarrow> string list" where
  "legiarti_of v =
     (case v of JStr s \<Rightarrow> if startswith s ''LEGIARTI'' then [s] else [] | _ \<Rightarrow> [])"

text \<open>The inner loop \<open>for a in arts\<close>, appending to \<open>ids\<close>.\<close>

fun scan_articles :: "json list \<Rightarrow> string list \<Rightarrow> string list" where
  "scan_articles [] ids = ids"
| "scan_articles (a # arts) ids =
     (case a of
        JDict ad \<Rightarrow> scan_articles arts (ids @ legiarti_of (dict_get ad ''id''))
      | _ \<Rightarrow> scan_articles arts ids)"

text \<open>The outer loop \<open>for r in results\<close>.\<close>

fun scan_results :: "json list \<Rightarrow> string list \<Rightarrow> string list" where
  "scan_results [] ids = ids"
| "scan_results (r # rs) ids =
     (case r of
        JDict rd \<Rightarrow>
          (let arts = py_or (dict_get rd ''articles'') (JList []);
               ids1 = (case arts of JList as \<Rightarrow> scan_articles as ids | _ \<Rightarrow> ids);
               ids2 = ids1 @ legiarti_of (dict_get rd ''id'')
           in scan_results rs ids2)
      | _ \<Rightarrow> scan_results rs ids)"

text \<open>The deduplication loop with its \<open>seen\<close> set and \<open>uniq\<close> list.\<close>

fun dedup :: "string list \<Rightarrow> string set \<Rightarrow> string list \<Rightarrow> string list" where
  "dedup [] seen uniq = uniq"
| "dedup (x # xs) seen uniq =
     (if x \<notin> seen then dedup xs (insert x seen) (uniq @ [x]) else dedup xs seen uniq)"

text \<open>
  \<open>_extract_legiarti_id_from_search\<close>. The argument is whatever \<open>resp.json()\<close> gave;
  \<open>.get\<close> on a value that is not a dict raises \<open>AttributeError\<close>.
\<close>

definition extract_legiarti_id_from_search :: "json \<Rightarrow> exn + string list" where
  "extract_legiarti_id_from_search search_resp =
     (case search_resp of
        JDict d \<Rightarrow>
          (case py_or (dict_get d ''results'') (JList []) of
             JList results \<Rightarrow> Inr (dedup (scan_results results []) {} [])
           | _ \<Rightarrow> Inr [])
      | _ \<Rightarrow> Inl AttributeError)"

subsection \<open>What the extraction is said to compute\<close>

text \<open>The result list of a response: a missing or non-list field counts as empty.\<close>

definition results_of :: "(string \<times> json) list \<Rightarrow> json list" where
  "results_of d = (case dict_get d ''results'' of JList rs \<Rightarrow> rs | _ \<Rightarrow> [])"

text \<open>The identifiers of one result: those of its "articles" sub-list, then its own "id".\<close>

definition article_ids :: "json \<Rightarrow> string list" where
  "article_ids a = (case a of JDict ad \<Rightarrow> legiarti_of (dict_get ad ''id'') | _ \<Rightarrow> [])"

definition ids_of_result :: "json \<Rightarrow> string list" where
  "ids_of_result r =
     (case r of
        JDict rd \<Rightarrow>
          (case dict_get rd ''articles'' of
             JList as \<Rightarrow> concat (map article_ids as)
           | _ \<Rightarrow> [])
          @ legiarti_of (dict_get rd ''id'')
      | _ \<Rightarrow> [])"

text \<open>Each element once, in order of first appearance.\<close>

fun first_occurrences :: "'a list \<Rightarrow> 'a list" where
  "first_occurrences [] = []"
| "first_occurrences (x # xs) = x # first_occurrences (filter (\<lambda>y. y \<noteq> x) xs)"

text \<open>The response that lists the given identifiers as direct results.\<close>

definition response_of_ids :: "string list \<Rightarrow> json" where
  "response_of_ids ids = JDict [(''results'', JList (map (\<lambda>i. JDict [(''id'', JStr i)]) ids))]"

section \<open>Characters and strings\<close>

text \<open>
  Whitespace as \<open>str.strip\<close>, \<open>str.isspace\<close> and the pattern \<open>\s\<close> see it, on ASCII:
  tab to carriage return, the four separators \<open>0x1c\<close> to \<open>0x1f\<close>, and the space.
\<close>

definition is_space :: "char \<Rightarrow> bool" where
  "is_space c = (let n = (of_char c :: nat) in (9 \<le> n \<and> n \<le> 13) \<or> (28 \<le> n \<and> n \<le> 32))"

definition is_digit :: "char \<Rightarrow> bool" where
  "is_digit c = (let n = (of_char c :: nat) in 48 \<le> n \<and> n \<le> 57)"

definition is_digit19 :: "char \<Rightarrow> bool" where
  "is_digit19 c = (let n = (of_char c :: nat) in 49 \<le> n \<and> n \<le> 57)"

definition is_ascii_letter :: "char \<Rightarrow> bool" where
  "is_ascii_letter c =
     (let n = (of_char c :: nat) in (65 \<le> n \<and> n \<le> 90) \<or> (97 \<le> n \<and> n \<le> 122))"

definition digit_val :: "char \<Rightarrow> nat" where
  "digit_val c = of_char c - 48"

text \<open>\<open>s.strip()\<close>, \<open>s.rstrip("/")\<close>, \<open>s.lstrip("/")\<close>, \<open>s.endswith(p)\<close>, \<open>s.replace("/", "-")\<close>\<close>

definition strip :: "string \<Rightarrow> string" where
  "strip s = rev (dropWhile is_space (rev (dropWhile is_space s)))"

definition rstrip_slash :: "string \<Rightarrow> string" where
  "rstrip_slash s = rev (dropWhile (\<lambda>c. c = CHR ''/'') (rev s))"

definition lstrip_slash :: "string \<Rightarrow> string" where
  "lstrip_slash s = dropWhile (\<lambda>c. c = CHR ''/'') s"

definition endswith :: "string \<Rightarrow> string \<Rightarrow> bool" where
  "endswith s p = (drop (length s - length p) s = p)"

definition replace_slash_by_dash :: "string \<Rightarrow> string" where
  "replace_slash_by_dash s = map (\<lambda>c. if c = CHR ''/'' then CHR ''-'' else c) s"

section \<open>utils/normalize.py\<close>

text \<open>
  \<open>re.sub(r"\s*-\s*", "-", s)\<close>, read left to right: whitespace met is held back in
  \<open>pend\<close> until the next character shows whether it leads to a dash (dropped) or not
  (emitted); after a dash, whitespace is dropped (\<open>after_dash\<close>).
\<close>

fun sub_dash :: "bool \<Rightarrow> string \<Rightarrow> string \<Rightarrow> string" where
  "sub_dash after_dash pend [] = pend"
| "sub_dash after_dash pend (c # cs) =
     (if c = CHR ''-'' then CHR ''-'' # sub_dash True [] cs
      else if is_space c then
        (if after_dash then sub_dash True [] cs else sub_dash False (pend @ [c]) cs)
      else pend @ c # sub_dash False [] cs)"

text \<open>
  \<open>re.sub(r"^([A-Za-z])\s+(\d)", r"\1\2", s)\<close>: a leading letter, at least one
  whitespace, a digit; the whitespace goes.
\<close>

definition sub_letter_digit :: "string \<Rightarrow> string" where
  "sub_letter_digit s =
     (case s of
        c # w # cs \<Rightarrow>
          (if is_ascii_letter c \<and> is_space w then
             (case dropWhile is_space cs of
                d # rest \<Rightarrow> if is_digit d then c # d # rest else s
              | [] \<Rightarrow> s)
           else s)
      | _ \<Rightarrow> s)"

text \<open>\<open>re.sub(r"\s+", " ", s)\<close>: every maximal run of whitespace becomes one space.\<close>

fun sub_spaces :: "bool \<Rightarrow> string \<Rightarrow> string" where
  "sub_spaces in_run [] = []"
| "sub_spaces in_run (c # cs) =
     (if is_space c then (if in_run then sub_spaces True cs else CHR '' '' # sub_spaces True cs)
      else c # sub_spaces False cs)"

definition normalize_article_num :: "string option \<Rightarrow> string option" where
  "normalize_article_num raw =
     (case raw of
        None \<Rightarrow> None
      | Some r \<Rightarrow>
          if r = [] then None
          else Some (sub_spaces False (sub_letter_digit (sub_dash False [] (strip r)))))"

definition normalize_code_title :: "string option \<Rightarrow> string option" where
  "normalize_code_title raw =
     (case raw of
        None \<Rightarrow> None
      | Some r \<Rightarrow> if r = [] then None else Some (sub_spaces False (strip r)))"

section \<open>utils/dates.py\<close>

text \<open>
  \<open>datetime.strptime(s, "%Y-%m-%d")\<close>. The format compiles to the pattern
  \<open>(\d\d\d\d)-(1[0-2]|0[1-9]|[1-9])-(3[0-1]|[1-2]\d|0[1-9]|[1-9]| [1-9])\<close>, matched from
  the start; text left over after the match is an error.
\<close>

fun month_dash :: "string \<Rightarrow> (nat \<times> string) option" where
  "month_dash (a # b # c # rest) =
     (if a = CHR ''1'' \<and> b \<in> set ''012'' \<and> c = CHR ''-'' then Some (10 + digit_val b, rest)
      else if a = CHR ''0'' \<and> is_digit19 b \<and> c = CHR ''-'' then Some (digit_val b, rest)
      else if is_digit19 a \<and> b = CHR ''-'' then Some (digit_val a, c # rest)
      else None)"
| "month_dash [a, b] = (if is_digit19 a \<and> b = CHR ''-'' then Some (digit_val a, []) else None)"
| "month_dash [a] = None"
| "month_dash [] = None"

fun day_prefix :: "string \<Rightarrow> (nat \<times> string) option" where
  "day_prefix (a # b # rest) =
     (if a = CHR ''3'' \<and> b \<in> set ''01'' then Some (30 + digit_val b, rest)
      else if a \<in> set ''12'' \<and> is_digit b then Some (10 * digit_val a + digit_val b, rest)
      else if a = CHR ''0'' \<and> is_digit19 b then Some (digit_val b, rest)
      else if is_digit19 a then Some (digit_val a, b # rest)
      else if a = CHR '' '' \<and> is_digit19 b then Some (digit_val b, rest)
      else None)"
| "day_prefix [a] = (if is_digit19 a then Some (digit_val a, []) else None)"
| "day_prefix [] = None"

definition is_leap :: "nat \<Rightarrow> bool" where
  "is_leap y = (y mod 4 = 0 \<and> (y mod 100 \<noteq> 0 \<or> y mod 400 = 0))"

definition days_in_month :: "nat \<Rightarrow> nat \<Rightarrow> nat" where
  "days_in_month y m =
     (if m = 2 then (if is_leap y then 29 else 28)
      else if m \<in> {4, 6, 9, 11} then 30 else 31)"

definition strptime_ymd :: "string \<Rightarrow> exn + nat \<times> nat \<times> nat" where
  "strptime_ymd s =
     (case s of
        y1 # y2 # y3 # y4 # dash # rest \<Rightarrow>
          if is_digit y1 \<and> is_digit y2 \<and> is_digit y3 \<and> is_digit y4 \<and> dash = CHR ''-'' then
            (case month_dash rest of
               None \<Rightarrow> Inl ValueError
             | Some (m, rest1) \<Rightarrow>
                 (case day_prefix rest1 of
                    None \<Rightarrow> Inl ValueError
                  | Some (d, rest2) \<Rightarrow>
                      let y = 1000 * digit_val y1 + 100 * digit_val y2
                              + 10 * digit_val y3 + digit_val y4
                      in if rest2 \<noteq> [] \<or> y = 0 \<or> days_in_month y m < d then Inl ValueError
                         else Inr (y, m, d)))
          else Inl ValueError
      | _ \<Rightarrow> Inl ValueError)"

text \<open>
  The proleptic Gregorian ordinal of a date (day 1 is 0001-01-01), as \<open>datetime\<close>
  computes it; 1970-01-01 is day 719163.
\<close>

definition days_before_month :: "nat \<Rightarrow> nat \<Rightarrow> nat" where
  "days_before_month y m =
     [0, 31, 59, 90, 120, 151, 181, 212, 243, 273, 304, 334] ! (m - 1)
     + (if 2 < m \<and> is_leap y then 1 else 0)"

definition ymd2ord :: "nat \<Rightarrow> nat \<Rightarrow> nat \<Rightarrow> nat" where
  "ymd2ord y m d =
     (y - 1) * 365 + (y - 1) div 4 - (y - 1) div 100 + (y - 1) div 400
     + days_before_month y m + d"

text \<open>
  \<open>int(dt.replace(tzinfo=timezone.utc).timestamp() * 1000)\<close> for a date at midnight: the
  products stay far below \<open>2^53\<close>, so the float arithmetic is exact.
\<close>

definition utc_millis :: "nat \<times> nat \<times> nat \<Rightarrow> int" where
  "utc_millis ymd =
     (case ymd of (y, m, d) \<Rightarrow> (int (ymd2ord y m d) - 719163) * 86400 * 1000)"

definition iso_date_to_millis :: "string option \<Rightarrow> exn + int option" where
  "iso_date_to_millis date_str =
     (case date_str of
        None \<Rightarrow> Inr None
      | Some ds \<Rightarrow>
          if ds = [] then Inr None
          else (case strptime_ymd (replace_slash_by_dash (strip ds)) of
                  Inl e \<Rightarrow> Inl e
                | Inr ymd \<Rightarrow> Inr (Some (utc_millis ymd))))"

section \<open>resolver.py: the search payloads\<close>

definition search_payload_code_article :: "string \<Rightarrow> string \<Rightarrow> string option \<Rightarrow> exn + json" where
  "search_payload_code_article code_title article_num date_version =
     (case (case date_version of
              None \<Rightarrow> Inr None
            | Some dv \<Rightarrow> if dv = [] then Inr None else iso_date_to_millis (Some dv)) of
        Inl e \<Rightarrow> Inl e
      | Inr millis \<Rightarrow>
          (let filtres =
                 (case millis of
                    None \<Rightarrow> []
                  | Some ms \<Rightarrow>
                      if ms \<noteq> 0
                      then [JDict [(''facette'', JStr ''DATE_VERSION''), (''singleDate'', JInt ms)]]
                      else [])
                 @ [JDict [(''facette'', JStr ''TEXT_LEGAL_STATUS''), (''valeur'', JStr ''VIGUEUR'')]]
           in Inr (JDict
             [(''fond'', JStr ''CODE_ETAT''),
              (''recherche'', JDict
                [(''champs'', JList
                   [JDict
                      [(''typeChamp'', JStr ''TEXT_NOM_CODE''),
                       (''criteres'', JList
                          [JDict [(''typeRecherche'', JStr ''EXACTE''),
                                  (''valeur'', JStr code_title),
                                  (''operateur'', JStr ''ET'')]]),
                       (''operateur'', JStr ''ET'')],
                    JDict
                      [(''typeChamp'', JStr ''NUM_ARTICLE''),
                       (''criteres'', JList
                          [JDict [(''typeRecherche'', JStr ''EXACTE''),
                                  (''valeur'', JStr article_num),
                                  (''operateur'', JStr ''ET'')]]),
                       (''operateur'', JStr ''ET'')]]),
                 (''filtres'', JList filtres),
                 (''pageNumber'', JInt 1),
                 (''pageSize'', JInt 10),
                 (''operateur'', JStr ''ET''),
                 (''sort'', JStr ''PERTINENCE''),
                 (''typePagination'', JStr ''DEFAUT'')])])))"

definition fallback_payload_code_only :: "string \<Rightarrow> json" where
  "fallback_payload_code_only code_title =
     JDict
       [(''fond'', JStr ''CODE_ETAT''),
        (''recherche'', JDict
          [(''champs'', JList
             [JDict
                [(''typeChamp'', JStr ''TEXT_NOM_CODE''),
                 (''criteres'', JList
                    [JDict [(''typeRecherche'', JStr ''EXACTE''),
                            (''valeur'', JStr code_title),
                            (''operateur'', JStr ''ET'')]]),
                 (''operateur'', JStr ''ET'')]]),
           (''filtres'', JList
              [JDict [(''facette'', JStr ''TEXT_LEGAL_STATUS''), (''valeur'', JStr ''VIGUEUR'')]]),
           (''pageNumber'', JInt 1),
           (''pageSize'', JInt 5),
           (''operateur'', JStr ''ET''),
           (''sort'', JStr ''PERTINENCE''),
           (''typePagination'', JStr ''DEFAUT'')])]"

text \<open>Reading a payload back: the \<open>recherche\<close> part, its filters, its criteria fields.\<close>

definition recherche_of :: "json \<Rightarrow> (string \<times> json) list" where
  "recherche_of q =
     (case q of
        JDict d \<Rightarrow> (case dict_get d ''recherche'' of JDict r \<Rightarrow> r | _ \<Rightarrow> [])
      | _ \<Rightarrow> [])"

definition filtres_of :: "json \<Rightarrow> json list" where
  "filtres_of q = (case dict_get (recherche_of q) ''filtres'' of JList fs \<Rightarrow> fs | _ \<Rightarrow> [])"

definition champs_of :: "json \<Rightarrow> json list" where
  "champs_of q = (case dict_get (recherche_of q) ''champs'' of JList cs \<Rightarrow> cs | _ \<Rightarrow> [])"

definition field_of :: "string \<Rightarrow> json \<Rightarrow> json" where
  "field_of k j = (case j of JDict d \<Rightarrow> dict_get d k | _ \<Rightarrow> JNull)"

section \<open>The world outside the process\<close>

text \<open>
  An HTTP response as the code reads it: \<open>status_code\<close>, \<open>text\<close> and what \<open>json()\<close>
  decodes the body to (\<open>None\<close> when the body is not JSON). A request either gets a
  response or raises an \<open>httpx\<close> exception.
\<close>

record response =
  status_code :: int
  resp_text :: string
  resp_json :: "json option"

datatype reply = Replies response | Raises httpx_exn

text \<open>
  The configuration of \<open>config.py\<close> and the environment: \<open>net n\<close> is what the \<open>n\<close>-th
  HTTP request of the process meets, \<open>clock n\<close> what the \<open>n\<close>-th call of \<open>time.time()\<close>
  returns. Time is a real number of seconds; the rounding of floats is not modelled.
\<close>

record env =
  PISTE_CLIENT_ID :: "string option"
  PISTE_CLIENT_SECRET :: "string option"
  PISTE_TOKEN_URL :: string
  LEGIFRANCE_API_BASE :: string
  net :: "nat \<Rightarrow> reply"
  clock :: "nat \<Rightarrow> real"

text \<open>What the process does to the outside, and to its token cache, in order.\<close>

datatype event =
    TokenPost string "(string \<times> string) list"
  | ApiPost string json json
  | Sleep real
  | Invalidate

text \<open>
  The module state of \<open>legifrance.py\<close> (\<open>_access_token\<close>, \<open>_token_expires_at\<close>), the
  number of requests sent and clock readings taken so far, and the log of events.
  The shared \<open>httpx\<close> client holds no state the code reads. A single task runs, so
  \<open>_token_lock\<close> is always free when it is taken.
\<close>

record world =
  access_token :: json
  token_expires_at :: "real option"
  requests :: nat
  readings :: nat
  trace :: "event list"

definition time_time :: "env \<Rightarrow> world \<Rightarrow> real \<times> world" where
  "time_time E w = (clock E (readings w), w\<lparr>readings := Suc (readings w)\<rparr>)"

definition asyncio_sleep :: "real \<Rightarrow> world \<Rightarrow> world" where
  "asyncio_sleep d w = w\<lparr>trace := trace w @ [Sleep d]\<rparr>"

text \<open>\<open>await client.post(...)\<close>: the request is logged and the next reply of the network taken.\<close>

definition client_post :: "env \<Rightarrow> event \<Rightarrow> world \<Rightarrow> (exn + response) \<times> world" where
  "client_post E request w =
     (let w' = w\<lparr>requests := Suc (requests w), trace := trace w @ [request]\<rparr>
      in case net E (requests w) of
           Raises x \<Rightarrow> (Inl (HttpxError x), w')
         | Replies r \<Rightarrow> (Inr r, w'))"

text \<open>\<open>resp.json()\<close>\<close>

definition json_of :: "response \<Rightarrow> exn + json" where
  "json_of r = (case resp_json r of None \<Rightarrow> Inl JSONDecodeError | Some j \<Rightarrow> Inr j)"

section \<open>The builtin \<open>int\<close>\<close>

text \<open>
  Reading an ASCII string: \<open>int\<close> skips the whitespace of the C locale at both ends (tab to
  carriage return, and the space; the separators \<open>0x1c\<close> to \<open>0x1f\<close>, which
  \<open>str.strip\<close> removes, are not skipped here), takes a sign, then decimal digits with
  single underscores between them. \<open>prev_digit\<close> tells whether the character before
  was a digit. More than 4300 digits are refused (the interpreter's default limit).
\<close>

definition is_c_space :: "char \<Rightarrow> bool" where
  "is_c_space c = (let n = (of_char c :: nat) in (9 \<le> n \<and> n \<le> 13) \<or> n = 32)"

definition c_strip :: "string \<Rightarrow> string" where
  "c_strip s = rev (dropWhile is_c_space (rev (dropWhile is_c_space s)))"

fun int_digits :: "bool \<Rightarrow> nat \<Rightarrow> string \<Rightarrow> nat option" where
  "int_digits prev_digit acc [] = (if prev_digit then Some acc else None)"
| "int_digits prev_digit acc (c # cs) =
     (if is_digit c then int_digits True (10 * acc + digit_val c) cs
      else if c = CHR ''_'' \<and> prev_digit then int_digits False acc cs
      else None)"

definition limited_digits :: "string \<Rightarrow> nat option" where
  "limited_digits s =
     (if 4300 < length (filter is_digit s) then None else int_digits False 0 s)"

definition int_of_str :: "string \<Rightarrow> int option" where
  "int_of_str s =
     (case c_strip s of
        [] \<Rightarrow> None
      | c # cs \<Rightarrow>
          if c = CHR ''-'' then map_option (\<lambda>n. - int n) (limited_digits cs)
          else if c = CHR ''+'' then map_option int (limited_digits cs)
          else map_option int (limited_digits (c # cs)))"

definition trunc_real :: "real \<Rightarrow> int" where
  "trunc_real x = (if 0 \<le> x then \<lfloor>x\<rfloor> else \<lceil>x\<rceil>)"

fun py_int :: "json \<Rightarrow> exn + int" where
  "py_int (JInt n) = Inr n"
| "py_int (JBool b) = Inr (if b then 1 else 0)"
| "py_int (JFloat (Finite x)) = Inr (trunc_real x)"
| "py_int (JFloat NaN) = Inl ValueError"
| "py_int (JFloat PosInf) = Inl OverflowError"
| "py_int (JFloat NegInf) = Inl OverflowError"
| "py_int (JStr s) = (case int_of_str s of None \<Rightarrow> Inl ValueError | Some n \<Rightarrow> Inr n)"
| "py_int JNull = Inl TypeError"
| "py_int (JList xs) = Inl TypeError"
| "py_int (JDict d) = Inl TypeError"

section \<open>services/legifrance.py: the token cache\<close>

text \<open>
  \<open>time.time() + expires_in\<close> turns the integer into a float, which raises
  \<open>OverflowError\<close> from \<open>2^1024 - 2^970\<close> on, the first integer that rounds beyond the
  largest double.
\<close>

definition float_overflows :: "int \<Rightarrow> bool" where
  "float_overflows n = (2 ^ 1024 - 2 ^ 970 \<le> \<bar>n\<bar>)"

text \<open>
  \<open>_fetch_new_token\<close>. The token is stored before the expiry is computed, so it stays
  in the cache when that computation raises.
\<close>

definition fetch_new_token :: "env \<Rightarrow> world \<Rightarrow> (exn + json) \<times> world" where
  "fetch_new_token E w =
     (case (PISTE_CLIENT_ID E, PISTE_CLIENT_SECRET E) of
        (Some client_id, Some client_secret) \<Rightarrow>
          if client_id = [] \<or> client_secret = [] then (Inl (LegifranceAuthError MissingCredentials), w)
          else
            (case client_post E
                    (TokenPost (PISTE_TOKEN_URL E)
                       [(''grant_type'', ''client_credentials''),
                        (''client_id'', client_id),
                        (''client_secret'', client_secret),
                        (''scope'', ''openid'')]) w of
               (Inl e, w1) \<Rightarrow> (Inl e, w1)
             | (Inr r, w1) \<Rightarrow>
                 if status_code r \<noteq> 200
                 then (Inl (LegifranceAuthError (TokenStatus (status_code r) (resp_text r))), w1)
                 else
                   (case json_of r of
                      Inl e \<Rightarrow> (Inl e, w1)
                    | Inr (JDict payload) \<Rightarrow>
                        (let token = dict_get payload ''access_token'' in
                         if \<not> truthy token then (Inl (LegifranceAuthError NoAccessToken), w1)
                         else
                           (case py_int (dict_get_default payload ''expires_in'' (JInt 3600)) of
                              Inl e \<Rightarrow> (Inl e, w1)
                            | Inr expires_in \<Rightarrow>
                                (case time_time E (w1\<lparr>access_token := token\<rparr>) of
                                   (now, w2) \<Rightarrow>
                                     if float_overflows expires_in then (Inl OverflowError, w2)
                                     else
                                       (Inr token,
                                        w2\<lparr>token_expires_at :=
                                             Some (now + real_of_int expires_in - 60)\<rparr>))))
                    | Inr _ \<Rightarrow> (Inl AttributeError, w1)))
      | _ \<Rightarrow> (Inl (LegifranceAuthError MissingCredentials), w))"

text \<open>\<open>_access_token and _token_expires_at and now < _token_expires_at\<close>\<close>

definition cache_valid :: "world \<Rightarrow> real \<Rightarrow> bool" where
  "cache_valid w now =
     (truthy (access_token w) \<and>
      (case token_expires_at w of None \<Rightarrow> False | Some ex \<Rightarrow> ex \<noteq> 0 \<and> now < ex))"

text \<open>\<open>get_token\<close>\<close>

definition get_token :: "env \<Rightarrow> world \<Rightarrow> (exn + json) \<times> world" where
  "get_token E w =
     (case time_time E w of
        (now, w1) \<Rightarrow>
          if cache_valid w1 now then (Inr (access_token w1), w1)
          else
            (case time_time E w1 of
               (now2, w2) \<Rightarrow>
                 if cache_valid w2 now2 then (Inr (access_token w2), w2)
                 else fetch_new_token E w2))"

text \<open>\<open>_invalidate_token_cache\<close>\<close>

definition invalidate_token_cache :: "world \<Rightarrow> world" where
  "invalidate_token_cache w =
     w\<lparr>access_token := JNull, token_expires_at := None, trace := trace w @ [Invalidate]\<rparr>"

text \<open>\<open>_ensure_consult_base\<close>\<close>

definition ensure_consult_base :: "string \<Rightarrow> exn + string" where
  "ensure_consult_base base =
     (let b = rstrip_slash base in
      if b = [] then Inl (LegifranceApiError BaseEmpty)
      else if \<not> endswith b ''/consult'' then Inr (b @ ''/consult'')
      else Inr b)"

section \<open>services/legifrance.py: the transport\<close>

text \<open>The inner \<open>_do_post\<close>: a token, then the request with it as bearer.\<close>

definition do_post :: "env \<Rightarrow> string \<Rightarrow> json \<Rightarrow> world \<Rightarrow> (exn + response) \<times> world" where
  "do_post E url json_payload w =
     (case get_token E w of
        (Inl e, w1) \<Rightarrow> (Inl e, w1)
      | (Inr token, w1) \<Rightarrow> client_post E (ApiPost url token json_payload) w1)"

text \<open>The local variables of \<open>_post_legifrance\<close> that live across the attempts.\<close>

record loop_vars =
  last_exc :: "httpx_exn option"
  resp :: "response option"
  refreshed_after_401 :: bool

text \<open>How one pass of the loop body, and the loop, ends.\<close>

datatype ctl = Break loop_vars | Continue loop_vars | Raise exn

text \<open>\<open>0.2 * (2 ** attempt)\<close>, in seconds\<close>

definition backoff :: "nat \<Rightarrow> real" where
  "backoff attempt = 2 / 10 * 2 ^ attempt"

text \<open>
  The \<open>except (httpx.TimeoutException, httpx.NetworkError)\<close> clause: these two are kept
  in \<open>last_exc\<close> and slept on; any other exception leaves the function.
\<close>

definition on_exception :: "nat \<Rightarrow> exn \<Rightarrow> loop_vars \<Rightarrow> world \<Rightarrow> ctl \<times> world" where
  "on_exception attempt e v w =
     (case e of
        HttpxError TimeoutException \<Rightarrow>
          (Continue (v\<lparr>last_exc := Some TimeoutException\<rparr>), asyncio_sleep (backoff attempt) w)
      | HttpxError NetworkError \<Rightarrow>
          (Continue (v\<lparr>last_exc := Some NetworkError\<rparr>), asyncio_sleep (backoff attempt) w)
      | _ \<Rightarrow> (Raise e, w))"

text \<open>The end of the \<open>try\<close> block: sleep and go on for a transient status, else \<open>break\<close>.\<close>

definition on_response :: "nat \<Rightarrow> response \<Rightarrow> loop_vars \<Rightarrow> world \<Rightarrow> ctl \<times> world" where
  "on_response attempt r v w =
     (if status_code r \<in> {429, 500, 502, 503, 504}
      then (Continue v, asyncio_sleep (backoff attempt) w)
      else (Break v, w))"

text \<open>The body of \<open>for attempt in range(3)\<close>.\<close>

definition attempt_body ::
  "env \<Rightarrow> string \<Rightarrow> json \<Rightarrow> nat \<Rightarrow> loop_vars \<Rightarrow> world \<Rightarrow> ctl \<times> world" where
  "attempt_body E url json_payload attempt v w =
     (case do_post E url json_payload w of
        (Inl e, w1) \<Rightarrow> on_exception attempt e v w1
      | (Inr r, w1) \<Rightarrow>
          if status_code r = 401 \<and> \<not> refreshed_after_401 v then
            (case do_post E url json_payload (invalidate_token_cache w1) of
               (Inl e, w2) \<Rightarrow>
                 on_exception attempt e (v\<lparr>resp := Some r, refreshed_after_401 := True\<rparr>) w2
             | (Inr r2, w2) \<Rightarrow>
                 on_response attempt r2 (v\<lparr>resp := Some r2, refreshed_after_401 := True\<rparr>) w2)
          else on_response attempt r (v\<lparr>resp := Some r\<rparr>) w1)"

text \<open>
  The \<open>for\<close> loop over the attempts still to run. \<open>Continue\<close> out of the last attempt
  means the loop ran to its end, where Python takes the \<open>else\<close> clause.
\<close>

fun retry_loop ::
  "env \<Rightarrow> string \<Rightarrow> json \<Rightarrow> nat list \<Rightarrow> loop_vars \<Rightarrow> world \<Rightarrow> ctl \<times> world" where
  "retry_loop E url json_payload [] v w = (Continue v, w)"
| "retry_loop E url json_payload (attempt # attempts) v w =
     (case attempt_body E url json_payload attempt v w of
        (Continue v', w') \<Rightarrow> retry_loop E url json_payload attempts v' w'
      | (Break v', w') \<Rightarrow> (Break v', w')
      | (Raise e, w') \<Rightarrow> (Raise e, w'))"

text \<open>\<open>_post_legifrance\<close>\<close>

definition post_legifrance :: "env \<Rightarrow> string \<Rightarrow> json \<Rightarrow> world \<Rightarrow> (exn + json) \<times> world" where
  "post_legifrance E endpoint json_payload w =
     (case ensure_consult_base (LEGIFRANCE_API_BASE E) of
        Inl e \<Rightarrow> (Inl e, w)
      | Inr base \<Rightarrow>
          (case retry_loop E (base @ ''/'' @ lstrip_slash endpoint) json_payload [0, 1, 2]
                  \<lparr>last_exc = None, resp = None, refreshed_after_401 = False\<rparr> w of
             (Raise e, w') \<Rightarrow> (Inl e, w')
           | (Continue v, w') \<Rightarrow> (Inl (LegifranceApiError (NetworkExhausted (last_exc v))), w')
           | (Break v, w') \<Rightarrow>
               (case resp v of
                  None \<Rightarrow> (Inl (LegifranceApiError NoResponse), w')
                | Some r \<Rightarrow>
                    if 400 \<le> status_code r
                    then (Inl (LegifranceApiError
                                 (RemoteStatus endpoint (status_code r) (resp_text r))), w')
                    else (case json_of r of
                            Inl e \<Rightarrow> (Inl e, w')
                          | Inr j \<Rightarrow> (Inr j, w')))))"

definition lf_search :: "env \<Rightarrow> json \<Rightarrow> world \<Rightarrow> (exn + json) \<times> world" where
  "lf_search E payload w = post_legifrance E ''search'' payload w"

definition lf_get_article :: "env \<Rightarrow> string \<Rightarrow> world \<Rightarrow> (exn + json) \<times> world" where
  "lf_get_article E legiarti_id w =
     post_legifrance E ''getArticle'' (JDict [(''id'', JStr legiarti_id)]) w"

section \<open>services/resolver.py: the resolution\<close>

record ResolvedArticle =
  source :: string
  legiarti_id :: string
  title :: json
  article_num :: string
  date_version :: "string option"
  raw :: json

text \<open>\<open>_extract_title_from_article_resp\<close>\<close>

definition extract_title_from_article_resp :: "json \<Rightarrow> json" where
  "extract_title_from_article_resp article_resp =
     (case article_resp of
        JDict d \<Rightarrow>
          (let art = (case dict_get d ''article'' of JDict a \<Rightarrow> a | _ \<Rightarrow> d);
               titles = py_or (py_or (dict_get art ''textTitles'') (dict_get art ''titles''))
                          (JList [])
           in case titles of
                JList (JDict first # _) \<Rightarrow>
                  py_or (dict_get first ''title'') (dict_get first ''titreLong'')
              | _ \<Rightarrow> JNull)
      | _ \<Rightarrow> JNull)"

text \<open>
  The three phases of \<open>resolve_code_article\<close> after the payload is built: the search with
  its fallback (the \<open>try\<close> statement), the decision on the identifiers found, and the
  fetch with the assembly of the result.
\<close>

definition search_phase :: "env \<Rightarrow> json \<Rightarrow> string \<Rightarrow> world \<Rightarrow> (exn + json) \<times> world" where
  "search_phase E payload code_title w =
     (case lf_search E payload w of
        (Inl e, w1) \<Rightarrow> lf_search E (fallback_payload_code_only code_title) w1
      | (Inr search_resp, w1) \<Rightarrow> (Inr search_resp, w1))"

definition fetch_phase ::
  "env \<Rightarrow> string \<Rightarrow> string option \<Rightarrow> string \<Rightarrow> world \<Rightarrow> (exn + ResolvedArticle) \<times> world" where
  "fetch_phase E article_n date_hint lid w =
     (case lf_get_article E lid w of
        (Inl e, w1) \<Rightarrow> (Inl e, w1)
      | (Inr article_resp, w1) \<Rightarrow>
          (Inr \<lparr>source = ''CODE'',
                legiarti_id = lid,
                title = extract_title_from_article_resp article_resp,
                article_num = article_n,
                date_version = date_hint,
                raw = article_resp\<rparr>, w1))"

definition decide_phase ::
  "env \<Rightarrow> string \<Rightarrow> string \<Rightarrow> string option \<Rightarrow> json \<Rightarrow> world
     \<Rightarrow> (exn + ResolvedArticle) \<times> world" where
  "decide_phase E code_title article_n date_hint search_resp w =
     (case extract_legiarti_id_from_search search_resp of
        Inl e \<Rightarrow> (Inl e, w)
      | Inr ids \<Rightarrow>
          (case ids of
             [] \<Rightarrow> (Inl (NotFoundError code_title article_n date_hint), w)
           | first # _ \<Rightarrow>
               if 3 < length ids
               then (Inl (AmbiguousError (length ids)
                            (map (\<lambda>i. JDict [(''id'', JStr i)]) (take 10 ids))), w)
               else fetch_phase E article_n date_hint first w))"

definition resolve_code_article ::
  "env \<Rightarrow> string \<Rightarrow> string \<Rightarrow> string option \<Rightarrow> world \<Rightarrow> (exn + ResolvedArticle) \<times> world" where
  "resolve_code_article E code_hint article_hint date_hint w =
     (case (normalize_code_title (Some code_hint), normalize_article_num (Some article_hint)) of
        (Some code_title, Some article_n) \<Rightarrow>
          if code_title = [] \<or> article_n = [] then (Inl TooBroadError, w)
          else
            (case search_payload_code_article code_title article_n date_hint of
               Inl e \<Rightarrow> (Inl e, w)
             | Inr payload \<Rightarrow>
                 (case search_phase E payload code_title w of
                    (Inl e, w1) \<Rightarrow> (Inl e, w1)
                  | (Inr search_resp, w1) \<Rightarrow>
                      decide_phase E code_title article_n date_hint search_resp w1))
      | _ \<Rightarrow> (Inl TooBroadError, w))"

subsection \<open>Observations on a log of events\<close>

definition sleeps_of :: "event list \<Rightarrow> real list" where
  "sleeps_of evs = concat (map (\<lambda>e. case e of Sleep d \<Rightarrow> [d] | _ \<Rightarrow> []) evs)"

definition invalidations_of :: "event list \<Rightarrow> nat" where
  "invalidations_of evs = length (filter (\<lambda>e. e = Invalidate) evs)"

definition api_posts_of :: "event list \<Rightarrow> (string \<times> json \<times> json) list" where
  "api_posts_of evs = concat (map (\<lambda>e. case e of ApiPost u t p \<Rightarrow> [(u, t, p)] | _ \<Rightarrow> []) evs)"

definition token_posts_of :: "event list \<Rightarrow> nat" where
  "token_posts_of evs = length (filter (\<lambda>e. case e of TokenPost u f \<Rightarrow> True | _ \<Rightarrow> False) evs)"

section \<open>Names for the statements\<close>

text \<open>\<open>not s\<close> for an optional string: \<open>None\<close> or the empty string.\<close>

definition falsy :: "string option \<Rightarrow> bool" where
  "falsy s = (s = None \<or> s = Some [])"

text \<open>The two filters a primary search payload can hold.\<close>

definition status_filter :: json where
  "status_filter = JDict [(''facette'', JStr ''TEXT_LEGAL_STATUS''), (''valeur'', JStr ''VIGUEUR'')]"

definition date_filter :: "int \<Rightarrow> json" where
  "date_filter ms = JDict [(''facette'', JStr ''DATE_VERSION''), (''singleDate'', JInt ms)]"

text \<open>
  Concrete surroundings to run the code in: a network that answers from a list of
  replies (and fails to connect once the list is used up), a configuration with
  credentials, a clock standing at 1000 seconds, and two starting states, one with an
  empty token cache and one holding a token good until 5000.
\<close>

definition scripted :: "reply list \<Rightarrow> nat \<Rightarrow> reply" where
  "scripted rs n = (if n < length rs then rs ! n else Raises NetworkError)"

definition env_of :: "reply list \<Rightarrow> env" where
  "env_of rs =
     \<lparr>PISTE_CLIENT_ID = Some ''client'',
      PISTE_CLIENT_SECRET = Some ''secret'',
      PISTE_TOKEN_URL = ''https://oauth/token'',
      LEGIFRANCE_API_BASE = ''https://api/lf-engine-app'',
      net = scripted rs,
      clock = (\<lambda>n. 1000)\<rparr>"

definition cold_world :: world where
  "cold_world =
     \<lparr>access_token = JNull, token_expires_at = None, requests = 0, readings = 0, trace = []\<rparr>"

definition warm_world :: world where
  "warm_world =
     \<lparr>access_token = JStr ''T0'', token_expires_at = Some 5000, requests = 0, readings = 0,
      trace = []\<rparr>"

definition ok_reply :: "json \<Rightarrow> reply" where
  "ok_reply j = Replies \<lparr>status_code = 200, resp_text = ''{...}'', resp_json = Some j\<rparr>"

definition status_reply :: "int \<Rightarrow> reply" where
  "status_reply n = Replies \<lparr>status_code = n, resp_text = ''error page'', resp_json = None\<rparr>"

definition token_reply :: "string \<Rightarrow> json \<Rightarrow> reply" where
  "token_reply t lifetime = ok_reply (JDict [(''access_token'', JStr t), (''expires_in'', lifetime)])"

subsection \<open>Observations on a state\<close>

text \<open>What a state's log shows: the sleeps, the invalidations, the requests.\<close>

definition slept :: "world \<Rightarrow> real list" where
  "slept w = sleeps_of (trace w)"

definition invalidated :: "world \<Rightarrow> nat" where
  "invalidated w = invalidations_of (trace w)"

definition api_posts :: "world \<Rightarrow> (string \<times> json \<times> json) list" where
  "api_posts w = api_posts_of (trace w)"

definition token_posts :: "world \<Rightarrow> nat" where
  "token_posts w = token_posts_of (trace w)"




text \<open>
  The exceptions a token acquisition or a request can end in: none of the application's
  own resolution or API errors.
\<close>

definition token_failure :: "exn \<Rightarrow> bool" where
  "token_failure e =
     (case e of
        LegifranceApiError a \<Rightarrow> False
      | TooBroadError \<Rightarrow> False
      | NotFoundError c a d \<Rightarrow> False
      | AmbiguousError n cs \<Rightarrow> False
      | _ \<Rightarrow> True)"

text \<open>What one pass of the loop body leaves behind, as a function of how it ends.\<close>

definition sleep_after :: "nat \<Rightarrow> ctl \<Rightarrow> real list" where
  "sleep_after attempt c = (case c of Continue v \<Rightarrow> [backoff attempt] | _ \<Rightarrow> [])"

definition refreshed_in :: "ctl \<Rightarrow> bool" where
  "refreshed_in c =
     (case c of Continue v \<Rightarrow> refreshed_after_401 v | Break v \<Rightarrow> refreshed_after_401 v
      | Raise e \<Rightarrow> True)"

definition body_post :: "nat \<Rightarrow> loop_vars \<Rightarrow> world \<Rightarrow> ctl \<Rightarrow> world \<Rightarrow> bool" where
  "body_post attempt v w c w' =
     (slept w' = slept w @ sleep_after attempt c
      \<and> invalidated w \<le> invalidated w' \<and> invalidated w' \<le> Suc (invalidated w)
      \<and> (refreshed_after_401 v \<longrightarrow> invalidated w' = invalidated w \<and> refreshed_in c)
      \<and> (invalidated w' = Suc (invalidated w) \<longrightarrow> refreshed_in c)
      \<and> length (api_posts w') \<le> Suc (length (api_posts w)) + (invalidated w' - invalidated w)
      \<and> (case c of Raise e \<Rightarrow> token_failure e | Break v' \<Rightarrow> resp v' \<noteq> None
          | Continue v' \<Rightarrow> True))"

text \<open>What a run of the loop over the attempts \<open>ks\<close> leaves behind.\<close>

definition is_continue :: "ctl \<Rightarrow> bool" where
  "is_continue c = (case c of Continue v \<Rightarrow> True | _ \<Rightarrow> False)"

definition loop_post :: "nat list \<Rightarrow> loop_vars \<Rightarrow> world \<Rightarrow> ctl \<Rightarrow> world \<Rightarrow> bool" where
  "loop_post ks v w c w' =
     ((\<exists>n. n \<le> length ks \<and> slept w' = slept w @ map backoff (take n ks)
           \<and> (n = length ks \<longleftrightarrow> is_continue c)
           \<and> length (api_posts w') + invalidated w
               \<le> length (api_posts w) + (if is_continue c then n else Suc n) + invalidated w')
      \<and> invalidated w \<le> invalidated w'
      \<and> invalidated w' \<le> invalidated w + (if refreshed_after_401 v then 0 else 1)
      \<and> (case c of Raise e \<Rightarrow> token_failure e | Break v' \<Rightarrow> resp v' \<noteq> None
          | Continue v' \<Rightarrow> True))"



text \<open>
  What \<open>_post_legifrance\<close> returns once the loop has ended, and the values its local
  variables start with.
\<close>

definition after_loop :: "string \<Rightarrow> ctl \<Rightarrow> exn + json" where
  "after_loop endpoint c =
     (case c of
        Raise e \<Rightarrow> Inl e
      | Continue v \<Rightarrow> Inl (LegifranceApiError (NetworkExhausted (last_exc v)))
      | Break v \<Rightarrow>
          (case resp v of
             None \<Rightarrow> Inl (LegifranceApiError NoResponse)
           | Some r \<Rightarrow>
               if 400 \<le> status_code r
               then Inl (LegifranceApiError (RemoteStatus endpoint (status_code r) (resp_text r)))
               else json_of r))"

definition first_vars :: loop_vars where
  "first_vars = \<lparr>last_exc = None, resp = None, refreshed_after_401 = False\<rparr>"



definition flaky :: env where
  "flaky = env_of [Raises TimeoutException, status_reply 503, Raises NetworkError]"


text \<open>The URL the search endpoint resolves to under \<open>env_of\<close>.\<close>

definition search_url :: string where
  "search_url = ''https://api/lf-engine-app/consult/search''"

text \<open>Scripted networks: a 401, a new token, then a 200; and a 401, a new token, a 401 again.\<close>

definition stale_then_ok :: env where
  "stale_then_ok =
     env_of [status_reply 401, token_reply ''T1'' (JInt 3600),
             ok_reply (JDict [(''results'', JList [])])]"

definition stale_twice :: env where
  "stale_twice = env_of [status_reply 401, token_reply ''T1'' (JInt 3600), status_reply 401]"

text \<open>The candidate entry built for an identifier, and the one field of a fallback search.\<close>

definition candidate :: "string \<Rightarrow> json" where
  "candidate i = JDict [(''id'', JStr i)]"

definition code_title_field :: "string \<Rightarrow> json" where
  "code_title_field ct =
     JDict [(''typeChamp'', JStr ''TEXT_NOM_CODE''),
            (''criteres'', JList [JDict [(''typeRecherche'', JStr ''EXACTE''),
                                         (''valeur'', JStr ct),
                                         (''operateur'', JStr ''ET'')]]),
            (''operateur'', JStr ''ET'')]"

text \<open>Scripted networks for the resolution: twelve identifiers found; none; two, then the article.\<close>

definition twelve_ids :: "string list" where
  "twelve_ids =
     [''LEGIARTI01'', ''LEGIARTI02'', ''LEGIARTI03'', ''LEGIARTI04'', ''LEGIARTI05'',
      ''LEGIARTI06'', ''LEGIARTI07'', ''LEGIARTI08'', ''LEGIARTI09'', ''LEGIARTI10'',
      ''LEGIARTI11'', ''LEGIARTI12'']"

definition finds_twelve :: env where
  "finds_twelve = env_of [ok_reply (response_of_ids twelve_ids)]"

definition finds_none :: env where
  "finds_none = env_of [ok_reply (JDict [(''results'', JList [])])]"

definition article_json :: json where
  "article_json =
     JDict [(''article'', JDict [(''id'', JStr ''LEGIARTI000006900783''),
                                 (''textTitles'', JList [JDict [(''title'', JStr ''Code du travail'')]])])]"

definition finds_two :: env where
  "finds_two =
     env_of [ok_reply (response_of_ids [''LEGIARTI000006900783'', ''LEGIARTI000006900784'']),
             ok_reply article_json]"

text \<open>
  Scripted networks: the primary search refused with a 400, the fallback answered or
  refused too.
\<close>

definition refuses_then_finds :: env where
  "refuses_then_finds =
     env_of [status_reply 400, ok_reply (response_of_ids [''LEGIARTI000006900783'']),
             ok_reply article_json]"

definition refuses_twice :: env where
  "refuses_twice = env_of [status_reply 400, status_reply 404]"

text \<open>
  Scripted networks: the token endpoint down once, then up, the search and the fetch
  answered; a 401 from the API followed by a token endpoint that is down. And a
  configuration without client identifier.
\<close>

definition token_down_once :: env where
  "token_down_once =
     env_of [status_reply 500, token_reply ''T1'' (JInt 3600),
             ok_reply (response_of_ids [''LEGIARTI000006900783'']), ok_reply article_json]"

definition stale_then_token_down :: env where
  "stale_then_token_down = env_of [status_reply 401, status_reply 500]"

definition no_credentials :: env where
  "no_credentials = (env_of [])\<lparr>PISTE_CLIENT_ID := None\<rparr>"

definition get_article_url :: string where
  "get_article_url = ''https://api/lf-engine-app/consult/getArticle''"















section \<open>Identifier extraction: properties\<close>


lemma scan_articles_eq: "scan_articles arts ids = ids @ concat (map article_ids arts)"
  by (induction arts arbitrary: ids) (auto simp: article_ids_def split: json.splits)

lemma scan_results_eq: "scan_results rs ids = ids @ concat (map ids_of_result rs)"
proof (induction rs arbitrary: ids)
  case Nil
  show ?case by simp
next
  case (Cons r rs)
  show ?case
  proof (cases r)
    case (JDict rd)
    show ?thesis
      by (cases "dict_get rd ''articles''")
         (simp_all add: JDict Cons.IH ids_of_result_def py_or_def scan_articles_eq Let_def)
  qed (simp_all add: Cons.IH ids_of_result_def)
qed

lemma filter_insert_seen:
  "filter (\<lambda>y. y \<noteq> x) (filter (\<lambda>y. y \<notin> seen) xs) = filter (\<lambda>y. y \<notin> insert x seen) xs"
  by (induction xs) auto

lemma dedup_eq:
  "dedup xs seen uniq = uniq @ first_occurrences (filter (\<lambda>y. y \<notin> seen) xs)"
proof (induction xs arbitrary: seen uniq)
  case Nil
  show ?case by simp
next
  case (Cons x xs)
  show ?case
    by (simp add: Cons.IH conj_commute)
qed

lemma set_first_occurrences: "set (first_occurrences xs) = set xs"
  by (induction xs rule: first_occurrences.induct) auto

lemma distinct_first_occurrences: "distinct (first_occurrences xs)"
  by (induction xs rule: first_occurrences.induct) (auto simp: set_first_occurrences)

lemma first_occurrences_distinct: "distinct xs \<Longrightarrow> first_occurrences xs = xs"
proof (induction xs)
  case Nil
  show ?case by simp
next
  case (Cons x xs)
  then have "filter (\<lambda>y. y \<noteq> x) xs = xs"
    by (auto intro: filter_True)
  with Cons show ?case by simp
qed


lemma legiarti_of_prefixed: "i \<in> set (legiarti_of v) \<Longrightarrow> startswith i ''LEGIARTI''"
  by (cases v) (auto simp: legiarti_of_def split: if_splits)

lemma ids_of_result_prefixed: "i \<in> set (ids_of_result r) \<Longrightarrow> startswith i ''LEGIARTI''"
  by (cases r) (auto simp: ids_of_result_def article_ids_def
      split: json.splits dest: legiarti_of_prefixed)

lemma extract_dict:
  "extract_legiarti_id_from_search (JDict d) =
     Inr (first_occurrences (concat (map ids_of_result (results_of d))))"
proof (cases "dict_get d ''results''")
  case (JList rs)
  then show ?thesis
    by (cases rs)
       (simp_all add: extract_legiarti_id_from_search_def results_of_def py_or_def
          dedup_eq scan_results_eq)
qed (simp_all add: extract_legiarti_id_from_search_def results_of_def py_or_def)

text \<open>The extraction returns a list exactly on the responses that are dicts.\<close>

lemma extract_returns_iff_dict:
  "(\<exists>ids. extract_legiarti_id_from_search sr = Inr ids) \<longleftrightarrow> (\<exists>d. sr = JDict d)"
proof (cases sr)
  case (JDict d)
  with extract_dict [of d] show ?thesis
    by simp
qed (simp_all add: extract_legiarti_id_from_search_def)

lemma ids_of_direct_results:
  "list_all (\<lambda>i. startswith i ''LEGIARTI'') ids \<Longrightarrow>
   concat (map (\<lambda>i. ids_of_result (JDict [(''id'', JStr i)])) ids) = ids"
  by (induction ids) (simp_all add: ids_of_result_def dict_get_def legiarti_of_def)

lemma extract_response_of_ids:
  assumes "distinct ids" and "list_all (\<lambda>i. startswith i ''LEGIARTI'') ids"
  shows "extract_legiarti_id_from_search (response_of_ids ids) = Inr ids"
proof -
  have "results_of [(''results'', JList (map (\<lambda>i. JDict [(''id'', JStr i)]) ids))]
          = map (\<lambda>i. JDict [(''id'', JStr i)]) ids"
    by (simp add: results_of_def dict_get_def)
  then show ?thesis
    using assms
    by (simp add: response_of_ids_def extract_dict ids_of_direct_results
        first_occurrences_distinct comp_def)
qed

lemma first_occurrences_filter:
  "first_occurrences (filter P xs) = filter P (first_occurrences xs)"
proof (induction xs rule: first_occurrences.induct)
  case 1
  show ?case by simp
next
  case (2 x xs)
  have sw: "filter (\<lambda>y. y \<noteq> x) (filter P xs) = filter P (filter (\<lambda>y. y \<noteq> x) xs)"
    by (simp add: conj_commute)
  show ?case
  proof (cases "P x")
    case True
    with 2 show ?thesis
      by (simp add: sw del: filter_filter)
  next
    case False
    then have "filter P xs = filter P (filter (\<lambda>y. y \<noteq> x) xs)"
      by (auto intro: filter_cong)
    with 2 False show ?thesis
      by (simp del: filter_filter)
  qed
qed

lemma remdups_snoc: "remdups (ys @ [x]) = filter (\<lambda>y. y \<noteq> x) (remdups ys) @ [x]"
  by (induction ys) auto

text \<open>The same list through the library: the last occurrences of the reversed list, reversed.\<close>

lemma first_occurrences_remdups: "first_occurrences xs = rev (remdups (rev xs))"
proof (induction xs)
  case Nil
  show ?case by simp
next
  case (Cons x xs)
  have "first_occurrences (x # xs) = x # filter (\<lambda>y. y \<noteq> x) (first_occurrences xs)"
    by (simp add: first_occurrences_filter)
  also have "\<dots> = x # filter (\<lambda>y. y \<noteq> x) (rev (remdups (rev xs)))"
    by (simp only: Cons.IH)
  also have "\<dots> = rev (remdups (rev (x # xs)))"
    by (simp add: remdups_snoc rev_filter)
  finally show ?case .
qed

text \<open>
  Claim C9. On every response that is a dict, the extraction returns the identifiers of
  the results (missing or non-list \<open>results\<close> counting as empty; from each result those
  of its "articles" sub-list, then its direct "id"; only strings starting with
  \<open>LEGIARTI\<close>), each once, in order of first appearance (which is also the reverse of
  what the library's \<open>remdups\<close>, keeping last occurrences, leaves of the reversed list).
  The function is pure, so a second run on the same response gives the same list; and
  extraction is idempotent in that the response listing its output as results extracts
  to that output again.
\<close>

theorem extract_legiarti_ids_first_occurrences:
  "extract_legiarti_id_from_search (JDict d)
     = Inr (first_occurrences (concat (map ids_of_result (results_of d))))
   \<and> distinct (first_occurrences (concat (map ids_of_result (results_of d))))
   \<and> set (first_occurrences (concat (map ids_of_result (results_of d))))
       = (\<Union>r \<in> set (results_of d). set (ids_of_result r))
   \<and> list_all (\<lambda>i. startswith i ''LEGIARTI'')
       (first_occurrences (concat (map ids_of_result (results_of d))))
   \<and> first_occurrences (concat (map ids_of_result (results_of d)))
       = rev (remdups (rev (concat (map ids_of_result (results_of d)))))
   \<and> extract_legiarti_id_from_search
       (response_of_ids (first_occurrences (concat (map ids_of_result (results_of d)))))
       = Inr (first_occurrences (concat (map ids_of_result (results_of d))))"
proof -
  let ?ids = "first_occurrences (concat (map ids_of_result (results_of d)))"
  have d: "distinct ?ids"
    by (rule distinct_first_occurrences)
  have s: "set ?ids = (\<Union>r \<in> set (results_of d). set (ids_of_result r))"
    by (simp add: set_first_occurrences)
  have p: "list_all (\<lambda>i. startswith i ''LEGIARTI'') ?ids"
    unfolding list_all_iff s by (blast dest: ids_of_result_prefixed)
  have r: "?ids = rev (remdups (rev (concat (map ids_of_result (results_of d)))))"
    by (rule first_occurrences_remdups)
  from d s p r extract_dict [of d] extract_response_of_ids [OF d p] show ?thesis
    by (intro conjI)
qed

text \<open>The claim at a response with duplicates across "articles" and "id" fields.\<close>

theorem extract_legiarti_ids_example:
  "extract_legiarti_id_from_search
     (JDict [(''results'', JList
        [JDict [(''id'', JStr ''LEGIARTI1''),
                (''articles'', JList [JDict [(''id'', JStr ''LEGIARTI2'')],
                                      JDict [(''id'', JStr ''LEGIARTI1'')],
                                      JDict [(''id'', JStr ''KALIARTI1'')], JInt 3])],
         JStr ''x'',
         JDict [(''id'', JStr ''LEGIARTI2'')],
         JDict [(''id'', JStr ''LEGIARTI3''), (''articles'', JStr ''zz'')]])])
   = Inr [''LEGIARTI2'', ''LEGIARTI1'', ''LEGIARTI3'']"
  using extract_legiarti_ids_first_occurrences
    [of "[(''results'', JList
        [JDict [(''id'', JStr ''LEGIARTI1''),
                (''articles'', JList [JDict [(''id'', JStr ''LEGIARTI2'')],
                                      JDict [(''id'', JStr ''LEGIARTI1'')],
                                      JDict [(''id'', JStr ''KALIARTI1'')], JInt 3])],
         JStr ''x'',
         JDict [(''id'', JStr ''LEGIARTI2'')],
         JDict [(''id'', JStr ''LEGIARTI3''), (''articles'', JStr ''zz'')]])]"]
  by (simp add: results_of_def dict_get_def ids_of_result_def article_ids_def
      legiarti_of_def startswith_def)

section \<open>The precondition check of the resolution\<close>

text \<open>
  Claim C6. When the normalized code title or the normalized article number is empty
  (or \<open>None\<close>), \<open>resolve_code_article\<close> raises \<open>TooBroadError\<close> and leaves the world as it
  was: no request sent, no clock read, no event logged, the token cache untouched.
\<close>

theorem too_broad_without_network:
  assumes "falsy (normalize_code_title (Some code_hint))
           \<or> falsy (normalize_article_num (Some article_hint))"
  shows "resolve_code_article E code_hint article_hint date_hint w = (Inl TooBroadError, w)"
  using assms
  by (auto simp: resolve_code_article_def falsy_def split: option.splits)

text \<open>The scenario of the claim: an empty code hint with a non-empty article hint.\<close>

theorem too_broad_empty_code_hint:
  "resolve_code_article (env_of []) '''' ''L 1221-1'' None cold_world
     = (Inl TooBroadError, cold_world)"
  by (rule too_broad_without_network) (simp add: falsy_def normalize_code_title_def)

text \<open>Which hints normalize to nothing: exactly those made of whitespace only.\<close>

lemma sub_spaces_Nil: "sub_spaces False s = [] \<longleftrightarrow> s = []"
  by (cases s) auto

lemma sub_letter_digit_Nil: "sub_letter_digit s = [] \<longleftrightarrow> s = []"
  by (auto simp: sub_letter_digit_def split: list.splits)

lemma not_space_dash: "\<not> is_space CHR ''-''"
  by (simp add: is_space_def)

lemma sub_dash_False_Nil: "sub_dash False pend cs = [] \<longleftrightarrow> pend = [] \<and> cs = []"
  by (induction cs arbitrary: pend) simp_all

lemma all_dropWhile: "(\<forall>x \<in> set (dropWhile P xs). P x) \<longleftrightarrow> (\<forall>x \<in> set xs. P x)"
  by (induction xs) auto

lemma strip_Nil: "strip s = [] \<longleftrightarrow> (\<forall>c \<in> set s. is_space c)"
  by (simp add: strip_def dropWhile_eq_Nil_conv all_dropWhile)

lemma falsy_code_title: "falsy (normalize_code_title (Some s)) \<longleftrightarrow> (\<forall>c \<in> set s. is_space c)"
  by (auto simp: falsy_def normalize_code_title_def sub_spaces_Nil strip_Nil)

lemma falsy_article_num: "falsy (normalize_article_num (Some s)) \<longleftrightarrow> (\<forall>c \<in> set s. is_space c)"
  by (auto simp: falsy_def normalize_article_num_def sub_spaces_Nil strip_Nil
      sub_letter_digit_Nil sub_dash_False_Nil)

section \<open>The date filter of the primary search\<close>

lemma filtres_of_primary:
  assumes "search_payload_code_article ct an dh = Inr q"
  shows "filtres_of q =
     (case (case dh of None \<Rightarrow> None | Some d \<Rightarrow> if d = [] then None
              else (case iso_date_to_millis (Some d) of Inr m \<Rightarrow> m | Inl e \<Rightarrow> None)) of
        None \<Rightarrow> [status_filter]
      | Some ms \<Rightarrow> if ms \<noteq> 0 then [date_filter ms, status_filter] else [status_filter])"
  using assms
  by (auto simp: search_payload_code_article_def filtres_of_def recherche_of_def dict_get_def
      status_filter_def date_filter_def Let_def split: option.splits sum.splits if_splits)

lemma epoch_millis: "iso_date_to_millis (Some ''1970-01-01'') = Inr (Some 0)"
  by (simp add: iso_date_to_millis_def strip_def is_space_def replace_slash_by_dash_def
      strptime_ymd_def is_digit_def is_digit19_def digit_val_def days_in_month_def
      utc_millis_def ymd2ord_def days_before_month_def)

lemma millis_2020: "iso_date_to_millis (Some ''2020-01-01'') = Inr (Some 1577836800000)"
  by (simp add: iso_date_to_millis_def strip_def is_space_def replace_slash_by_dash_def
      strptime_ymd_def is_digit_def is_digit19_def digit_val_def days_in_month_def
      utc_millis_def ymd2ord_def days_before_month_def is_leap_def)

text \<open>
  Claim C10. The date hint \<open>1970-01-01\<close> converts to 0 milliseconds and the primary payload
  built for it has the legal-status filter only; for any date hint that converts to a
  value \<open>ms\<close>, the payload has the \<open>DATE_VERSION\<close> filter with \<open>ms\<close>, before the status
  filter, exactly when \<open>ms\<close> is not 0.
\<close>

theorem date_version_filter_iff_nonzero_millis:
  "iso_date_to_millis (Some ''1970-01-01'') = Inr (Some 0)
   \<and> (\<exists>q. search_payload_code_article ct an (Some ''1970-01-01'') = Inr q
        \<and> filtres_of q = [status_filter])
   \<and> (iso_date_to_millis (Some dh) = Inr (Some ms) \<longrightarrow>
        (\<exists>q. search_payload_code_article ct an (Some dh) = Inr q
           \<and> filtres_of q = (if ms \<noteq> 0 then [date_filter ms, status_filter] else [status_filter])))"
proof (intro conjI impI)
  show "iso_date_to_millis (Some ''1970-01-01'') = Inr (Some 0)"
    by (rule epoch_millis)
next
  obtain q where q: "search_payload_code_article ct an (Some ''1970-01-01'') = Inr q"
    by (simp add: search_payload_code_article_def epoch_millis)
  from filtres_of_primary [OF q] have "filtres_of q = [status_filter]"
    by (simp add: epoch_millis)
  with q show "\<exists>q. search_payload_code_article ct an (Some ''1970-01-01'') = Inr q
        \<and> filtres_of q = [status_filter]"
    by blast
next
  assume m: "iso_date_to_millis (Some dh) = Inr (Some ms)"
  then have ne: "dh \<noteq> []"
    by (auto simp: iso_date_to_millis_def)
  obtain q where q: "search_payload_code_article ct an (Some dh) = Inr q"
    using m ne by (simp add: search_payload_code_article_def)
  from filtres_of_primary [OF q] m ne
  have "filtres_of q = (if ms \<noteq> 0 then [date_filter ms, status_filter] else [status_filter])"
    by simp
  with q show "\<exists>q. search_payload_code_article ct an (Some dh) = Inr q
           \<and> filtres_of q = (if ms \<noteq> 0 then [date_filter ms, status_filter] else [status_filter])"
    by blast
qed

text \<open>The claim at the date hint \<open>2020-01-01\<close>, which converts to a non-zero value.\<close>

theorem date_version_filter_2020:
  "iso_date_to_millis (Some ''2020-01-01'') = Inr (Some 1577836800000)
   \<and> (\<exists>q. search_payload_code_article ''Code du travail'' ''L1221-1'' (Some ''2020-01-01'') = Inr q
         \<and> filtres_of q = [date_filter 1577836800000, status_filter])"
  using date_version_filter_iff_nonzero_millis
    [of "''Code du travail''" "''L1221-1''" "''2020-01-01''" 1577836800000]
    millis_2020
  by simp

section \<open>The transport: what one call does\<close>

lemmas obs_defs = slept_def invalidated_def api_posts_def token_posts_def
  sleeps_of_def invalidations_of_def api_posts_of_def token_posts_of_def

lemma py_int_error: "py_int j = Inl e \<Longrightarrow> e = ValueError \<or> e = TypeError \<or> e = OverflowError"
  by (induction j rule: py_int.induct) (auto split: option.splits)





lemma time_time_obs:
  assumes "time_time E w = (t, w')"
  shows "trace w' = trace w" "access_token w' = access_token w"
    "token_expires_at w' = token_expires_at w" "requests w' = requests w"
  using assms by (auto simp: time_time_def)

lemma client_post_token_obs:
  assumes "client_post E (TokenPost u f) w = (r, w')"
  shows "slept w' = slept w" "invalidated w' = invalidated w" "api_posts w' = api_posts w"
    "token_posts w' = Suc (token_posts w)" "access_token w' = access_token w"
    "token_expires_at w' = token_expires_at w"
  using assms by (auto simp: client_post_def obs_defs Let_def split: reply.splits)

lemma client_post_api_obs:
  assumes "client_post E (ApiPost u t p) w = (r, w')"
  shows "slept w' = slept w" "invalidated w' = invalidated w"
    "api_posts w' = api_posts w @ [(u, t, p)]"
    "token_posts w' = token_posts w" "access_token w' = access_token w"
    "token_expires_at w' = token_expires_at w"
  using assms by (auto simp: client_post_def obs_defs Let_def split: reply.splits)

lemma fetch_new_token_obs:
  assumes "fetch_new_token E w = (r, w')"
  shows "slept w' = slept w" "invalidated w' = invalidated w" "api_posts w' = api_posts w"
    "token_posts w' \<le> Suc (token_posts w)"
  using assms
  by (auto simp: fetch_new_token_def Let_def time_time_def slept_def invalidated_def
        api_posts_def token_posts_def
      split: option.splits if_splits prod.splits sum.splits json.splits
      dest: client_post_token_obs [unfolded slept_def invalidated_def api_posts_def token_posts_def])



lemma get_token_obs:
  assumes "get_token E w = (r, w')"
  shows "slept w' = slept w" "invalidated w' = invalidated w" "api_posts w' = api_posts w"
    "token_posts w' \<le> Suc (token_posts w)"
  using assms
  by (auto simp: get_token_def time_time_def slept_def invalidated_def api_posts_def token_posts_def
      split: if_splits
      dest: fetch_new_token_obs [unfolded slept_def invalidated_def api_posts_def token_posts_def])

lemma client_post_error:
  "client_post E ev w = (Inl e, w') \<Longrightarrow> \<exists>x. e = HttpxError x"
  by (auto simp: client_post_def Let_def split: reply.splits)

lemma fetch_new_token_error:
  assumes "fetch_new_token E w = (Inl e, w')"
  shows "token_failure e"
  using assms
  by (auto simp: fetch_new_token_def Let_def time_time_def token_failure_def json_of_def
      split: option.splits if_splits prod.splits sum.splits json.splits
      dest!: client_post_error py_int_error)

lemma get_token_error:
  assumes "get_token E w = (Inl e, w')"
  shows "token_failure e"
  using assms
  by (auto simp: get_token_def time_time_def split: if_splits dest: fetch_new_token_error)

lemma do_post_error:
  assumes "do_post E u p w = (Inl e, w')"
  shows "token_failure e"
  using assms
  by (auto simp: do_post_def split: prod.splits sum.splits
      dest: get_token_error client_post_error simp: token_failure_def)

lemma do_post_obs:
  assumes "do_post E u p w = (r, w')"
  shows "slept w' = slept w" "invalidated w' = invalidated w"
    "length (api_posts w') \<le> Suc (length (api_posts w))"
    "token_posts w' \<le> Suc (token_posts w)"
proof -
  obtain g w1 where g: "get_token E w = (g, w1)"
    by (cases "get_token E w")
  note o = get_token_obs [OF g]
  have "slept w' = slept w \<and> invalidated w' = invalidated w
      \<and> length (api_posts w') \<le> Suc (length (api_posts w))
      \<and> token_posts w' \<le> Suc (token_posts w)"
  proof (cases g)
    case (Inl e)
    with assms g have "w' = w1"
      by (simp add: do_post_def)
    with o show ?thesis by simp
  next
    case (Inr t)
    with assms g have c: "client_post E (ApiPost u t p) w1 = (r, w')"
      by (simp add: do_post_def)
    from client_post_api_obs [OF c] o show ?thesis by simp
  qed
  then show "slept w' = slept w" "invalidated w' = invalidated w"
    "length (api_posts w') \<le> Suc (length (api_posts w))"
    "token_posts w' \<le> Suc (token_posts w)"
    by simp_all
qed

lemma asyncio_sleep_obs:
  "slept (asyncio_sleep d w) = slept w @ [d]"
  "invalidated (asyncio_sleep d w) = invalidated w"
  "api_posts (asyncio_sleep d w) = api_posts w"
  "token_posts (asyncio_sleep d w) = token_posts w"
  by (simp_all add: asyncio_sleep_def obs_defs)

lemma invalidate_obs:
  "slept (invalidate_token_cache w) = slept w"
  "invalidated (invalidate_token_cache w) = Suc (invalidated w)"
  "api_posts (invalidate_token_cache w) = api_posts w"
  "token_posts (invalidate_token_cache w) = token_posts w"
  by (simp_all add: invalidate_token_cache_def obs_defs)

lemma on_exception_cases:
  assumes "on_exception k e v w = (c, w')" and "token_failure e"
  obtains x where "e = HttpxError x" "x = TimeoutException \<or> x = NetworkError"
      "c = Continue (v\<lparr>last_exc := Some x\<rparr>)" "w' = asyncio_sleep (backoff k) w"
    | "c = Raise e" "w' = w"
  using assms
  by (auto simp: on_exception_def split: exn.splits httpx_exn.splits)

lemma on_response_cases:
  assumes "on_response k r v w = (c, w')"
  obtains "status_code r \<in> {429, 500, 502, 503, 504}" "c = Continue v"
      "w' = asyncio_sleep (backoff k) w"
    | "status_code r \<notin> {429, 500, 502, 503, 504}" "c = Break v" "w' = w"
  using assms
  by (auto simp: on_response_def split: if_splits)

lemma attempt_body_post:
  assumes "attempt_body E u p k v w = (c, w')"
  shows "body_post k v w c w'"
proof -
  obtain r1 w1 where d1: "do_post E u p w = (r1, w1)"
    by (cases "do_post E u p w")
  note o1 = do_post_obs [OF d1]
  show ?thesis
  proof (cases r1)
    case (Inl e)
    with assms d1 have h: "on_exception k e v w1 = (c, w')"
      by (simp add: attempt_body_def)
    from d1 Inl have tf: "token_failure e"
      by (auto dest: do_post_error)
    from h tf show ?thesis
    proof (cases rule: on_exception_cases)
      case (1 x)
      with o1 show ?thesis
        by (simp add: body_post_def sleep_after_def refreshed_in_def asyncio_sleep_obs)
    next
      case 2
      with o1 tf show ?thesis
        by (simp add: body_post_def sleep_after_def refreshed_in_def)
    qed
  next
    case (Inr r)
    show ?thesis
    proof (cases "status_code r = 401 \<and> \<not> refreshed_after_401 v")
      case False
      with assms d1 Inr have h: "on_response k r (v\<lparr>resp := Some r\<rparr>) w1 = (c, w')"
        by (auto simp: attempt_body_def)
      from h show ?thesis
      proof (cases rule: on_response_cases)
        case 1
        with o1 show ?thesis
          by (simp add: body_post_def sleep_after_def refreshed_in_def asyncio_sleep_obs)
      next
        case 2
        with o1 show ?thesis
          by (simp add: body_post_def sleep_after_def refreshed_in_def)
      qed
    next
      case True
      obtain r2 w2 where d2: "do_post E u p (invalidate_token_cache w1) = (r2, w2)"
        by (cases "do_post E u p (invalidate_token_cache w1)")
      note o2 = do_post_obs [OF d2, unfolded invalidate_obs]
      let ?v = "v\<lparr>resp := Some r, refreshed_after_401 := True\<rparr>"
      show ?thesis
      proof (cases r2)
        case (Inl e)
        with assms d1 d2 Inr True have h: "on_exception k e ?v w2 = (c, w')"
          by (simp add: attempt_body_def)
        from d2 Inl have tf: "token_failure e"
          by (auto dest: do_post_error)
        from h tf show ?thesis
        proof (cases rule: on_exception_cases)
          case (1 x)
          with o1 o2 True show ?thesis
            by (simp add: body_post_def sleep_after_def refreshed_in_def asyncio_sleep_obs)
        next
          case 2
          with o1 o2 tf True show ?thesis
            by (simp add: body_post_def sleep_after_def refreshed_in_def)
        qed
      next
        case (Inr r2')
        let ?v2 = "v\<lparr>resp := Some r2', refreshed_after_401 := True\<rparr>"
        from assms d1 d2 \<open>r1 = Inr r\<close> Inr True have h: "on_response k r2' ?v2 w2 = (c, w')"
          by (simp add: attempt_body_def)
        from h show ?thesis
        proof (cases rule: on_response_cases)
          case 1
          with o1 o2 True show ?thesis
            by (simp add: body_post_def sleep_after_def refreshed_in_def asyncio_sleep_obs)
        next
          case 2
          with o1 o2 True show ?thesis
            by (simp add: body_post_def sleep_after_def refreshed_in_def)
        qed
      qed
    qed
  qed
qed

lemma retry_loop_post:
  assumes "retry_loop E u p ks v w = (c, w')"
  shows "loop_post ks v w c w'"
  using assms
proof (induction ks arbitrary: v w)
  case Nil
  then show ?case
    by (auto simp: loop_post_def is_continue_def)
next
  case (Cons k ks)
  obtain c1 w1 where b: "attempt_body E u p k v w = (c1, w1)"
    by (cases "attempt_body E u p k v w")
  note bp = attempt_body_post [OF b, unfolded body_post_def]
  show ?case
  proof (cases c1)
    case (Continue v1)
    with Cons.prems b have l: "retry_loop E u p ks v1 w1 = (c, w')"
      by simp
    from Cons.IH [OF l] obtain n where
      n: "n \<le> length ks" "slept w' = slept w1 @ map backoff (take n ks)"
         "n = length ks \<longleftrightarrow> is_continue c"
         "length (api_posts w') + invalidated w1
            \<le> length (api_posts w1) + (if is_continue c then n else Suc n) + invalidated w'"
      and r: "invalidated w1 \<le> invalidated w'"
         "invalidated w' \<le> invalidated w1 + (if refreshed_after_401 v1 then 0 else 1)"
         "case c of Raise e \<Rightarrow> token_failure e | Break v' \<Rightarrow> resp v' \<noteq> None
          | Continue v' \<Rightarrow> True"
      unfolding loop_post_def by blast
    have sl: "slept w' = slept w @ map backoff (take (Suc n) (k # ks))"
      using bp n(2) Continue by (simp add: sleep_after_def)
    have ap: "length (api_posts w') + invalidated w
            \<le> length (api_posts w) + (if is_continue c then Suc n else Suc (Suc n))
               + invalidated w'"
      using bp n(4) r(1) by (auto split: if_splits)
    have iv: "invalidated w' \<le> invalidated w + (if refreshed_after_401 v then 0 else 1)"
      using bp r(2) Continue by (auto simp: refreshed_in_def split: if_splits)
    have "\<exists>m. m \<le> length (k # ks) \<and> slept w' = slept w @ map backoff (take m (k # ks))
           \<and> (m = length (k # ks) \<longleftrightarrow> is_continue c)
           \<and> length (api_posts w') + invalidated w
               \<le> length (api_posts w) + (if is_continue c then m else Suc m) + invalidated w'"
      using n(1) n(3) sl ap by (intro exI [of _ "Suc n"]) simp
    moreover have "invalidated w \<le> invalidated w'"
      using bp r(1) by simp
    ultimately show ?thesis
      using iv r(3) unfolding loop_post_def by blast
  next
    case (Break v1)
    with Cons.prems b have e: "c = Break v1" "w' = w1"
      by simp_all
    have "\<exists>m. m \<le> length (k # ks) \<and> slept w' = slept w @ map backoff (take m (k # ks))
           \<and> (m = length (k # ks) \<longleftrightarrow> is_continue c)
           \<and> length (api_posts w') + invalidated w
               \<le> length (api_posts w) + (if is_continue c then m else Suc m) + invalidated w'"
      using bp e Break by (intro exI [of _ 0]) (auto simp: sleep_after_def is_continue_def)
    then show ?thesis
      using bp e Break unfolding loop_post_def
      by (auto split: if_splits)
  next
    case (Raise x)
    with Cons.prems b have e: "c = Raise x" "w' = w1"
      by simp_all
    have "\<exists>m. m \<le> length (k # ks) \<and> slept w' = slept w @ map backoff (take m (k # ks))
           \<and> (m = length (k # ks) \<longleftrightarrow> is_continue c)
           \<and> length (api_posts w') + invalidated w
               \<le> length (api_posts w) + (if is_continue c then m else Suc m) + invalidated w'"
      using bp e Raise by (intro exI [of _ 0]) (auto simp: sleep_after_def is_continue_def)
    then show ?thesis
      using bp e Raise unfolding loop_post_def
      by (auto split: if_splits)
  qed
qed









section \<open>The transport: retries and backoff\<close>


lemma post_legifrance_after_loop:
  assumes "ensure_consult_base (LEGIFRANCE_API_BASE E) = Inr base"
    and "retry_loop E (base @ ''/'' @ lstrip_slash endpoint) payload [0, 1, 2] first_vars w = (c, w')"
  shows "post_legifrance E endpoint payload w = (after_loop endpoint c, w')"
  using assms
  by (cases c)
     (auto simp: post_legifrance_def after_loop_def first_vars_def json_of_def
        split: option.splits)





text \<open>The lifetimes of the scripted token responses are far from overflowing a float.\<close>

lemma float_overflows_small: "\<bar>n\<bar> < 2 ^ 64 \<Longrightarrow> \<not> float_overflows n"
proof -
  assume "\<bar>n\<bar> < 2 ^ 64"
  moreover have "(2::int) ^ 64 \<le> 2 ^ 1024 - 2 ^ 970"
    by simp
  ultimately show ?thesis
    unfolding float_overflows_def by linarith
qed

lemma lifetimes_fit:
  "\<not> float_overflows 30" "\<not> float_overflows 3600" "\<not> float_overflows 7200"
  by (simp_all add: float_overflows_small)

lemmas run_defs = lifetimes_fit post_legifrance_def ensure_consult_base_def rstrip_slash_def lstrip_slash_def
  endswith_def attempt_body_def do_post_def get_token_def time_time_def cache_valid_def
  fetch_new_token_def client_post_def on_response_def on_exception_def asyncio_sleep_def
  invalidate_token_cache_def json_of_def backoff_def env_of_def scripted_def
  ok_reply_def status_reply_def token_reply_def warm_world_def cold_world_def
  dict_get_def dict_get_default_def Let_def search_url_def






text \<open>Exhaustion with network exceptions on the way: the last one is embedded.\<close>

lemma run_flaky:
  "fst (post_legifrance flaky ''search'' (JDict []) warm_world)
     = Inl (LegifranceApiError (NetworkExhausted (Some NetworkError)))
   \<and> slept (snd (post_legifrance flaky ''search'' (JDict []) warm_world))
       = [200 / 1000, 400 / 1000, 800 / 1000]"
  by (simp add: flaky_def run_defs slept_def sleeps_of_def)

section \<open>The transport: re-authentication on 401\<close>

lemma invalidations_of_call:
  assumes "post_legifrance E endpoint payload w = (r, w')"
  shows "invalidated w \<le> invalidated w' \<and> invalidated w' \<le> Suc (invalidated w)"
proof (cases "ensure_consult_base (LEGIFRANCE_API_BASE E)")
  case (Inl e)
  with assms show ?thesis
    by (simp add: post_legifrance_def)
next
  case (Inr base)
  let ?u = "base @ ''/'' @ lstrip_slash endpoint"
  obtain c w2 where l: "retry_loop E ?u payload [0, 1, 2] first_vars w = (c, w2)"
    by (cases "retry_loop E ?u payload [0, 1, 2] first_vars w")
  from post_legifrance_after_loop [OF Inr l] assms have "w' = w2"
    by simp
  with retry_loop_post [OF l] show ?thesis
    by (simp add: loop_post_def first_vars_def)
qed

lemma get_token_after_invalidate:
  "get_token E (invalidate_token_cache w)
     = fetch_new_token E (snd (time_time E (snd (time_time E (invalidate_token_cache w)))))"
  by (simp add: get_token_def invalidate_token_cache_def time_time_def cache_valid_def)

lemma attempt_on_401:
  assumes "do_post E u p w = (Inr r1, w1)" and "status_code r1 = 401"
  shows "attempt_body E u p k v w =
     (if refreshed_after_401 v then (Break (v\<lparr>resp := Some r1\<rparr>), w1)
      else (case do_post E u p (invalidate_token_cache w1) of
              (Inl e, w2) \<Rightarrow>
                on_exception k e (v\<lparr>resp := Some r1, refreshed_after_401 := True\<rparr>) w2
            | (Inr r2, w2) \<Rightarrow>
                on_response k r2 (v\<lparr>resp := Some r2, refreshed_after_401 := True\<rparr>) w2))"
  using assms
  by (simp add: attempt_body_def on_response_def)

lemma do_post_sent:
  assumes "do_post E u p w = (Inr r, w')"
  shows "\<exists>t. api_posts w' = api_posts w @ [(u, t, p)]"
proof -
  obtain g w1 where g: "get_token E w = (g, w1)"
    by (cases "get_token E w")
  with assms obtain t where t: "g = Inr t" "client_post E (ApiPost u t p) w1 = (Inr r, w')"
    by (cases g) (auto simp: do_post_def)
  from client_post_api_obs(3) [OF t(2)] get_token_obs(3) [OF g] show ?thesis
    by simp
qed

lemma second_401_surfaces:
  assumes b: "ensure_consult_base (LEGIFRANCE_API_BASE E) = Inr base"
    and d1: "do_post E (base @ ''/'' @ lstrip_slash endpoint) payload w = (Inr r1, w1)"
    and s1: "status_code r1 = 401"
    and d2: "do_post E (base @ ''/'' @ lstrip_slash endpoint) payload (invalidate_token_cache w1)
               = (Inr r2, w2)"
    and s2: "status_code r2 = 401"
  shows "post_legifrance E endpoint payload w
           = (Inl (LegifranceApiError (RemoteStatus endpoint 401 (resp_text r2))), w2)
         \<and> invalidated w2 = Suc (invalidated w)
         \<and> (\<exists>t1 t2. api_posts w2
                = api_posts w @ [(base @ ''/'' @ lstrip_slash endpoint, t1, payload),
                                 (base @ ''/'' @ lstrip_slash endpoint, t2, payload)])"
proof -
  let ?u = "base @ ''/'' @ lstrip_slash endpoint"
  let ?v = "first_vars\<lparr>resp := Some r2, refreshed_after_401 := True\<rparr>"
  have "attempt_body E ?u payload 0 first_vars w = (Break ?v, w2)"
    using attempt_on_401 [OF d1 s1, of 0 first_vars] d2 s2
    by (simp add: first_vars_def on_response_def)
  then have "retry_loop E ?u payload [0, 1, 2] first_vars w = (Break ?v, w2)"
    by simp
  from post_legifrance_after_loop [OF b this] s2
  have "post_legifrance E endpoint payload w
           = (Inl (LegifranceApiError (RemoteStatus endpoint 401 (resp_text r2))), w2)"
    by (simp add: after_loop_def)
  moreover from do_post_obs [OF d1] do_post_obs [OF d2]
  have "invalidated w2 = Suc (invalidated w)"
    by (simp add: invalidate_obs)
  moreover from do_post_sent [OF d1] do_post_sent [OF d2]
  have "\<exists>t1 t2. api_posts w2 = api_posts w @ [(?u, t1, payload), (?u, t2, payload)]"
    by (auto simp: invalidate_obs)
  ultimately show ?thesis
    by simp
qed

text \<open>
  Claim C3. For every call of the transport there is at most one token-cache
  invalidation. An attempt whose request gets a 401 when no refresh has happened yet
  invalidates the cache once and sends the same request once more; the token of that
  second request comes from \<open>_fetch_new_token\<close>, since after the invalidation
  \<open>get_token\<close> cannot serve the cache. A 401 met once the refresh has happened ends the
  loop. When the request sent after the invalidation gets a 401 too, the call raises the
  API error with status 401 and the body of that response.
\<close>

theorem one_forced_refresh_per_call:
  "(post_legifrance E endpoint payload w = (r, w') \<longrightarrow>
      invalidated w \<le> invalidated w' \<and> invalidated w' \<le> Suc (invalidated w))
   \<and> get_token E (invalidate_token_cache w)
       = fetch_new_token E (snd (time_time E (snd (time_time E (invalidate_token_cache w)))))
   \<and> (do_post E u p w = (Inr r1, w1) \<and> status_code r1 = 401 \<longrightarrow>
        attempt_body E u p k v w =
          (if refreshed_after_401 v then (Break (v\<lparr>resp := Some r1\<rparr>), w1)
           else (case do_post E u p (invalidate_token_cache w1) of
                   (Inl e, w2) \<Rightarrow>
                     on_exception k e (v\<lparr>resp := Some r1, refreshed_after_401 := True\<rparr>) w2
                 | (Inr r2, w2) \<Rightarrow>
                     on_response k r2 (v\<lparr>resp := Some r2, refreshed_after_401 := True\<rparr>) w2)))
   \<and> (ensure_consult_base (LEGIFRANCE_API_BASE E) = Inr base
        \<and> do_post E (base @ ''/'' @ lstrip_slash endpoint) payload w = (Inr r1, w1)
        \<and> status_code r1 = 401
        \<and> do_post E (base @ ''/'' @ lstrip_slash endpoint) payload (invalidate_token_cache w1)
             = (Inr r2, w2)
        \<and> status_code r2 = 401 \<longrightarrow>
        post_legifrance E endpoint payload w
           = (Inl (LegifranceApiError (RemoteStatus endpoint 401 (resp_text r2))), w2)
         \<and> invalidated w2 = Suc (invalidated w)
         \<and> (\<exists>t1 t2. api_posts w2
                = api_posts w @ [(base @ ''/'' @ lstrip_slash endpoint, t1, payload),
                                 (base @ ''/'' @ lstrip_slash endpoint, t2, payload)]))"
  using invalidations_of_call [of E endpoint payload w r w'] get_token_after_invalidate [of E w]
    attempt_on_401 [of E u p w r1 w1 k v]
    second_401_surfaces [of E base endpoint payload w r1 w1 r2 w2]
  by blast

lemma run_stale_then_ok:
  "post_legifrance stale_then_ok ''search'' (JDict []) warm_world
    = (Inr (JDict [(''results'', JList [])]),
       \<lparr>access_token = JStr ''T1'', token_expires_at = Some 4540, requests = 3, readings = 4,
        trace = [ApiPost search_url (JStr ''T0'') (JDict []),
                 Invalidate,
                 TokenPost ''https://oauth/token''
                   [(''grant_type'', ''client_credentials''), (''client_id'', ''client''),
                    (''client_secret'', ''secret''), (''scope'', ''openid'')],
                 ApiPost search_url (JStr ''T1'') (JDict [])]\<rparr>)"
  by (simp add: stale_then_ok_def run_defs)

lemma base_of_env: "ensure_consult_base (LEGIFRANCE_API_BASE (env_of rs)) = Inr ''https://api/lf-engine-app/consult''"
  by (simp add: run_defs)

lemma first_post_stale:
  "do_post stale_twice (''https://api/lf-engine-app/consult'' @ ''/'' @ lstrip_slash ''search'')
      (JDict []) warm_world
    = (Inr \<lparr>status_code = 401, resp_text = ''error page'', resp_json = None\<rparr>,
       \<lparr>access_token = JStr ''T0'', token_expires_at = Some 5000, requests = 1, readings = 1,
        trace = [ApiPost search_url (JStr ''T0'') (JDict [])]\<rparr>)"
  by (simp add: stale_twice_def run_defs)

lemma second_post_stale:
  "do_post stale_twice (''https://api/lf-engine-app/consult'' @ ''/'' @ lstrip_slash ''search'')
      (JDict [])
      (invalidate_token_cache
        \<lparr>access_token = JStr ''T0'', token_expires_at = Some 5000, requests = 1, readings = 1,
        trace = [ApiPost search_url (JStr ''T0'') (JDict [])]\<rparr>)
    = (Inr \<lparr>status_code = 401, resp_text = ''error page'', resp_json = None\<rparr>,
       \<lparr>access_token = JStr ''T1'', token_expires_at = Some 4540, requests = 3, readings = 4,
        trace = [ApiPost search_url (JStr ''T0'') (JDict []),
                 Invalidate,
                 TokenPost ''https://oauth/token''
                   [(''grant_type'', ''client_credentials''), (''client_id'', ''client''),
                    (''client_secret'', ''secret''), (''scope'', ''openid'')],
                 ApiPost search_url (JStr ''T1'') (JDict [])]\<rparr>)"
  by (simp add: stale_twice_def run_defs)

text \<open>
  The claim on a 401 followed by a 200: one invalidation, one token request, the request
  sent twice, the second time with the new token; and on two 401s in a row: the API error
  with status 401, after one invalidation only.
\<close>

theorem one_forced_refresh_examples:
  "fst (post_legifrance stale_then_ok ''search'' (JDict []) warm_world)
     = Inr (JDict [(''results'', JList [])])
   \<and> invalidated (snd (post_legifrance stale_then_ok ''search'' (JDict []) warm_world)) = 1
   \<and> token_posts (snd (post_legifrance stale_then_ok ''search'' (JDict []) warm_world)) = 1
   \<and> api_posts (snd (post_legifrance stale_then_ok ''search'' (JDict []) warm_world))
       = [(search_url, JStr ''T0'', JDict []), (search_url, JStr ''T1'', JDict [])]
   \<and> fst (post_legifrance stale_twice ''search'' (JDict []) warm_world)
       = Inl (LegifranceApiError (RemoteStatus ''search'' 401 ''error page''))
   \<and> invalidated (snd (post_legifrance stale_twice ''search'' (JDict []) warm_world)) = 1"
proof -
  note t = one_forced_refresh_per_call
  from t [of stale_then_ok "''search''" "JDict []" warm_world] run_stale_then_ok
  have a: "invalidated (snd (post_legifrance stale_then_ok ''search'' (JDict []) warm_world))
             \<le> Suc (invalidated warm_world)"
    by simp
  have "post_legifrance stale_twice ''search'' (JDict []) warm_world
           = (Inl (LegifranceApiError (RemoteStatus ''search'' 401 ''error page'')),
       \<lparr>access_token = JStr ''T1'', token_expires_at = Some 4540, requests = 3, readings = 4,
        trace = [ApiPost search_url (JStr ''T0'') (JDict []),
                 Invalidate,
                 TokenPost ''https://oauth/token''
                   [(''grant_type'', ''client_credentials''), (''client_id'', ''client''),
                    (''client_secret'', ''secret''), (''scope'', ''openid'')],
                 ApiPost search_url (JStr ''T1'') (JDict [])]\<rparr>)"
    using t [THEN conjunct2, THEN conjunct2, THEN conjunct2, THEN mp,
        of stale_twice "''https://api/lf-engine-app/consult''" "''search''" "JDict []" warm_world]
      first_post_stale second_post_stale
    by (simp add: stale_twice_def base_of_env)
  then show ?thesis
    using a
    by (simp add: run_stale_then_ok invalidated_def invalidations_of_def token_posts_def
        token_posts_of_def api_posts_def api_posts_of_def)
qed

section \<open>The resolution: disambiguation and fallback\<close>

lemma resolve_after_search:
  assumes "normalize_code_title (Some code_hint) = Some ct" "ct \<noteq> []"
    and "normalize_article_num (Some article_hint) = Some an" "an \<noteq> []"
    and "search_payload_code_article ct an dh = Inr payload"
  shows "resolve_code_article E code_hint article_hint dh w =
     (case search_phase E payload ct w of
        (Inl e, w1) \<Rightarrow> (Inl e, w1)
      | (Inr search_resp, w1) \<Rightarrow> decide_phase E ct an dh search_resp w1)"
  using assms by (simp add: resolve_code_article_def)

text \<open>
  Claim C1. Once the search phase has returned a response and the extraction has given the
  list \<open>ids\<close> (as it does on every response that is a dict, the declared type; on any
  other JSON value \<open>.get\<close> raises before there is a list): with no identifier the outcome is \<open>NotFoundError\<close>, carrying the normalized
  code title, the normalized article number and the date hint; with more than three it is
  \<open>AmbiguousError\<close>, carrying the first ten identifiers at most, in the order of \<open>ids\<close>;
  with one to three the resolution goes on to the fetch phase with the first identifier,
  which any article resolved then bears. In the first two cases nothing more is sent.
\<close>

theorem disambiguation_policy:
  assumes "normalize_code_title (Some code_hint) = Some ct" "ct \<noteq> []"
    and "normalize_article_num (Some article_hint) = Some an" "an \<noteq> []"
    and "search_payload_code_article ct an dh = Inr payload"
    and "search_phase E payload ct w = (Inr sr, w1)"
    and "extract_legiarti_id_from_search sr = Inr ids"
  shows "resolve_code_article E code_hint article_hint dh w =
     (if ids = [] then (Inl (NotFoundError ct an dh), w1)
      else if 3 < length ids
        then (Inl (AmbiguousError (length ids) (map candidate (take 10 ids))), w1)
      else (case lf_get_article E (hd ids) w1 of
              (Inl e, w2) \<Rightarrow> (Inl e, w2)
            | (Inr article_resp, w2) \<Rightarrow>
                (Inr \<lparr>source = ''CODE'', legiarti_id = hd ids,
                      title = extract_title_from_article_resp article_resp,
                      article_num = an, date_version = dh, raw = article_resp\<rparr>, w2)))
     \<and> length (map candidate (take 10 ids)) = min 10 (length ids)"
proof -
  have "resolve_code_article E code_hint article_hint dh w = decide_phase E ct an dh sr w1"
    using resolve_after_search [OF assms(1-5), of E w] assms(6) by simp
  also have "\<dots> = (if ids = [] then (Inl (NotFoundError ct an dh), w1)
      else if 3 < length ids
        then (Inl (AmbiguousError (length ids) (map candidate (take 10 ids))), w1)
      else fetch_phase E an dh (hd ids) w1)"
    using assms(7)
    by (cases ids) (simp_all add: decide_phase_def candidate_def [abs_def])
  finally show ?thesis
    by (simp add: fetch_phase_def min.commute)
qed

lemmas hint_defs = normalize_code_title_def normalize_article_num_def strip_def is_space_def
  is_ascii_letter_def is_digit_def sub_letter_digit_def

lemma code_du_travail: "normalize_code_title (Some ''Code du travail'') = Some ''Code du travail''"
  by (simp add: hint_defs)

lemma l1221_1: "normalize_article_num (Some ''L 1221-1'') = Some ''L1221-1''"
  by (simp add: hint_defs)

lemma payload_without_date: "\<exists>p. search_payload_code_article ct an None = Inr p"
  by (simp add: search_payload_code_article_def)

lemma extract_twelve: "extract_legiarti_id_from_search (response_of_ids twelve_ids) = Inr twelve_ids"
  by (rule extract_response_of_ids) (simp_all add: twelve_ids_def startswith_def)

lemma search_twelve:
  "search_phase finds_twelve p ct warm_world
     = (Inr (response_of_ids twelve_ids), snd (search_phase finds_twelve p ct warm_world))"
  by (simp add: search_phase_def lf_search_def finds_twelve_def run_defs)

text \<open>The claim on a search that finds twelve identifiers: ambiguous, with the first ten.\<close>

theorem disambiguation_twelve:
  "fst (resolve_code_article finds_twelve ''Code du travail'' ''L 1221-1'' None warm_world)
     = Inl (AmbiguousError 12
         (map candidate
            [''LEGIARTI01'', ''LEGIARTI02'', ''LEGIARTI03'', ''LEGIARTI04'', ''LEGIARTI05'',
             ''LEGIARTI06'', ''LEGIARTI07'', ''LEGIARTI08'', ''LEGIARTI09'', ''LEGIARTI10'']))"
proof -
  obtain p where p: "search_payload_code_article ''Code du travail'' ''L1221-1'' None = Inr p"
    using payload_without_date by blast
  from disambiguation_policy [OF code_du_travail _ l1221_1 _ p search_twelve extract_twelve]
  show ?thesis
    by (simp add: twelve_ids_def)
qed

lemmas resolve_defs = resolve_code_article_def search_phase_def decide_phase_def fetch_phase_def
  lf_search_def lf_get_article_def search_payload_code_article_def
  extract_legiarti_id_from_search_def response_of_ids_def py_or_def legiarti_of_def
  startswith_def extract_title_from_article_resp_def

text \<open>No identifier found; two found, the first one fetched.\<close>

lemma resolve_finds_none:
  "fst (resolve_code_article finds_none ''Code du travail'' ''L 1221-1'' (Some ''2020-01-01'')
          warm_world)
     = Inl (NotFoundError ''Code du travail'' ''L1221-1'' (Some ''2020-01-01''))
   \<and> requests (snd (resolve_code_article finds_none ''Code du travail'' ''L 1221-1''
                       (Some ''2020-01-01'') warm_world)) = 1"
  by (simp add: code_du_travail l1221_1 millis_2020 resolve_defs finds_none_def run_defs)

lemma resolve_finds_two:
  "fst (resolve_code_article finds_two ''Code du travail'' ''L 1221-1'' None warm_world)
     = Inr \<lparr>source = ''CODE'', legiarti_id = ''LEGIARTI000006900783'',
            title = JStr ''Code du travail'', article_num = ''L1221-1'', date_version = None,
            raw = article_json\<rparr>"
  by (simp add: code_du_travail l1221_1 resolve_defs finds_two_def article_json_def run_defs)

text \<open>
  Claim C7. When the primary search call raises, whatever the exception, the resolution
  calls the search once more, with the fallback payload, from the state the failed call
  left; an exception of that second call is the outcome of the resolution, and a response
  goes to the decision on identifiers, which sends no search. The fallback payload has the
  code-title field as its only field, the in-force status filter as its only filter (so
  no date filter and no article-number field), and page size 5.
\<close>

theorem fallback_search_once:
  assumes "normalize_code_title (Some code_hint) = Some ct" "ct \<noteq> []"
    and "normalize_article_num (Some article_hint) = Some an" "an \<noteq> []"
    and "search_payload_code_article ct an dh = Inr payload"
    and "lf_search E payload w = (Inl e, w1)"
  shows "resolve_code_article E code_hint article_hint dh w =
     (case lf_search E (fallback_payload_code_only ct) w1 of
        (Inl e2, w2) \<Rightarrow> (Inl e2, w2)
      | (Inr search_resp, w2) \<Rightarrow> decide_phase E ct an dh search_resp w2)
     \<and> champs_of (fallback_payload_code_only ct) = [code_title_field ct]
     \<and> filtres_of (fallback_payload_code_only ct) = [status_filter]
     \<and> dict_get (recherche_of (fallback_payload_code_only ct)) ''pageSize'' = JInt 5"
proof -
  have "search_phase E payload ct w = lf_search E (fallback_payload_code_only ct) w1"
    using assms(6) by (simp add: search_phase_def)
  with resolve_after_search [OF assms(1-5), of E w]
  have "resolve_code_article E code_hint article_hint dh w =
     (case lf_search E (fallback_payload_code_only ct) w1 of
        (Inl e2, w2) \<Rightarrow> (Inl e2, w2)
      | (Inr search_resp, w2) \<Rightarrow> decide_phase E ct an dh search_resp w2)"
    by simp
  then show ?thesis
    by (simp add: fallback_payload_code_only_def champs_of_def filtres_of_def recherche_of_def
        dict_get_def code_title_field_def status_filter_def)
qed

lemma primary_refused:
  "lf_search (env_of (status_reply 400 # rs)) p warm_world
     = (Inl (LegifranceApiError (RemoteStatus ''search'' 400 ''error page'')),
        \<lparr>access_token = JStr ''T0'', token_expires_at = Some 5000, requests = 1, readings = 1,
         trace = [ApiPost search_url (JStr ''T0'') p]\<rparr>)"
  by (simp add: lf_search_def run_defs)

text \<open>
  The claim on a primary search refused with a 400: the fallback search finds the article,
  which is resolved; or the fallback is refused with a 404, which is the outcome.
\<close>

theorem fallback_search_examples:
  "fst (resolve_code_article refuses_then_finds ''Code du travail'' ''L 1221-1'' None warm_world)
     = Inr \<lparr>source = ''CODE'', legiarti_id = ''LEGIARTI000006900783'',
            title = JStr ''Code du travail'', article_num = ''L1221-1'', date_version = None,
            raw = article_json\<rparr>
   \<and> map (\<lambda>(u, t, p). u)
        (api_posts (snd (resolve_code_article refuses_then_finds ''Code du travail'' ''L 1221-1''
                           None warm_world)))
       = [search_url, search_url, ''https://api/lf-engine-app/consult/getArticle'']
   \<and> fst (resolve_code_article refuses_twice ''Code du travail'' ''L 1221-1'' None warm_world)
       = Inl (LegifranceApiError (RemoteStatus ''search'' 404 ''error page''))"
proof -
  obtain p where p: "search_payload_code_article ''Code du travail'' ''L1221-1'' None = Inr p"
    using payload_without_date by blast
  note t = fallback_search_once [OF code_du_travail _ l1221_1 _ p, THEN conjunct1]
  have a: "resolve_code_article refuses_then_finds ''Code du travail'' ''L 1221-1'' None warm_world
      = (case lf_search refuses_then_finds (fallback_payload_code_only ''Code du travail'')
           \<lparr>access_token = JStr ''T0'', token_expires_at = Some 5000, requests = 1, readings = 1,
            trace = [ApiPost search_url (JStr ''T0'') p]\<rparr> of
        (Inl e2, w2) \<Rightarrow> (Inl e2, w2)
      | (Inr search_resp, w2) \<Rightarrow>
          decide_phase refuses_then_finds ''Code du travail'' ''L1221-1'' None search_resp w2)"
    unfolding refuses_then_finds_def
    by (rule t [OF _ _ primary_refused]) simp_all
  have b: "resolve_code_article refuses_twice ''Code du travail'' ''L 1221-1'' None warm_world
      = (case lf_search refuses_twice (fallback_payload_code_only ''Code du travail'')
           \<lparr>access_token = JStr ''T0'', token_expires_at = Some 5000, requests = 1, readings = 1,
            trace = [ApiPost search_url (JStr ''T0'') p]\<rparr> of
        (Inl e2, w2) \<Rightarrow> (Inl e2, w2)
      | (Inr search_resp, w2) \<Rightarrow>
          decide_phase refuses_twice ''Code du travail'' ''L1221-1'' None search_resp w2)"
    unfolding refuses_twice_def
    by (rule t [OF _ _ primary_refused]) simp_all
  show ?thesis
    unfolding a b
    by (simp add: resolve_defs refuses_then_finds_def refuses_twice_def article_json_def
        run_defs api_posts_def api_posts_of_def)
qed

section \<open>Authentication errors\<close>

text \<open>
  Claim C8, as stated, fails: with the token endpoint answering 500 to the first token
  request, the primary search raises the authentication error, and the resolution goes
  on all the same: it asks for a token again, sends the fallback search and the fetch,
  and resolves the article.
\<close>

theorem auth_error_then_fallback_search:
  "(case search_payload_code_article ''Code du travail'' ''L1221-1'' None of
      Inl e \<Rightarrow> False
    | Inr p \<Rightarrow> fst (lf_search token_down_once p cold_world)
                 = Inl (LegifranceAuthError (TokenStatus 500 ''error page'')))
   \<and> fst (resolve_code_article token_down_once ''Code du travail'' ''L 1221-1'' None cold_world)
       = Inr \<lparr>source = ''CODE'', legiarti_id = ''LEGIARTI000006900783'',
              title = JStr ''Code du travail'', article_num = ''L1221-1'', date_version = None,
              raw = article_json\<rparr>
   \<and> api_posts (snd (resolve_code_article token_down_once ''Code du travail'' ''L 1221-1'' None
                        cold_world))
       = [(search_url, JStr ''T1'', fallback_payload_code_only ''Code du travail''),
          (get_article_url, JStr ''T1'', JDict [(''id'', JStr ''LEGIARTI000006900783'')])]
   \<and> token_posts (snd (resolve_code_article token_down_once ''Code du travail'' ''L 1221-1''
                          None cold_world)) = 2"
  by (simp add: code_du_travail l1221_1 resolve_defs token_down_once_def article_json_def
      run_defs api_posts_def api_posts_of_def token_posts_def token_posts_of_def
      get_article_url_def)

lemma auth_error_in_attempt:
  assumes "get_token E w0 = (Inl (LegifranceAuthError a), w1)"
  shows "retry_loop E u p (k # ks) v w0 = (Raise (LegifranceAuthError a), w1)"
  using assms by (simp add: attempt_body_def do_post_def on_exception_def)

lemma auth_error_in_refresh:
  assumes "do_post E u p w0 = (Inr r1, w1)" "status_code r1 = 401" "\<not> refreshed_after_401 v"
    and "get_token E (invalidate_token_cache w1) = (Inl (LegifranceAuthError a), w2)"
  shows "retry_loop E u p (k # ks) v w0 = (Raise (LegifranceAuthError a), w2)"
proof -
  from assms(4) have "do_post E u p (invalidate_token_cache w1) = (Inl (LegifranceAuthError a), w2)"
    by (simp add: do_post_def)
  with assms(1-3) show ?thesis
    by (simp add: attempt_body_def on_exception_def)
qed

lemma raise_leaves_call:
  assumes "ensure_consult_base (LEGIFRANCE_API_BASE E) = Inr base"
    and "retry_loop E (base @ ''/'' @ lstrip_slash endpoint) payload [0, 1, 2] first_vars w
           = (Raise e, w')"
  shows "post_legifrance E endpoint payload w = (Inl e, w')"
  using post_legifrance_after_loop [OF assms] by (simp add: after_loop_def)

text \<open>
  Claim C8, amended. Inside a transport call an authentication error of the token
  acquisition is not retried: raised in an attempt, at the first request or at the one
  that follows a 401, it ends the loop there, with no sleep, and is the outcome of the
  call. The resolution does not single it out: raised by the primary search it is
  followed, like any exception of that call, by the fallback search; raised by the
  fallback search it is the outcome of the resolution.
\<close>

theorem auth_error_ends_call_not_resolution:
  "(get_token E w0 = (Inl (LegifranceAuthError a), w1) \<longrightarrow>
      retry_loop E u p (k # ks) v w0 = (Raise (LegifranceAuthError a), w1))
   \<and> (do_post E u p w0 = (Inr r1, w1) \<and> status_code r1 = 401 \<and> \<not> refreshed_after_401 v
        \<and> get_token E (invalidate_token_cache w1) = (Inl (LegifranceAuthError a), w2) \<longrightarrow>
      retry_loop E u p (k # ks) v w0 = (Raise (LegifranceAuthError a), w2))
   \<and> (ensure_consult_base (LEGIFRANCE_API_BASE E) = Inr base
        \<and> retry_loop E (base @ ''/'' @ lstrip_slash endpoint) payload [0, 1, 2] first_vars w
             = (Raise e, w') \<longrightarrow>
      post_legifrance E endpoint payload w = (Inl e, w'))
   \<and> (normalize_code_title (Some code_hint) = Some ct \<and> ct \<noteq> []
        \<and> normalize_article_num (Some article_hint) = Some an \<and> an \<noteq> []
        \<and> search_payload_code_article ct an dh = Inr q
        \<and> lf_search E q w = (Inl (LegifranceAuthError a), w1) \<longrightarrow>
      resolve_code_article E code_hint article_hint dh w =
        (case lf_search E (fallback_payload_code_only ct) w1 of
           (Inl e2, w2) \<Rightarrow> (Inl e2, w2)
         | (Inr search_resp, w2) \<Rightarrow> decide_phase E ct an dh search_resp w2))"
proof (intro conjI impI)
  assume "get_token E w0 = (Inl (LegifranceAuthError a), w1)"
  then show "retry_loop E u p (k # ks) v w0 = (Raise (LegifranceAuthError a), w1)"
    by (rule auth_error_in_attempt)
next
  assume "do_post E u p w0 = (Inr r1, w1) \<and> status_code r1 = 401 \<and> \<not> refreshed_after_401 v
        \<and> get_token E (invalidate_token_cache w1) = (Inl (LegifranceAuthError a), w2)"
  then show "retry_loop E u p (k # ks) v w0 = (Raise (LegifranceAuthError a), w2)"
    by (blast intro: auth_error_in_refresh)
next
  assume "ensure_consult_base (LEGIFRANCE_API_BASE E) = Inr base
        \<and> retry_loop E (base @ ''/'' @ lstrip_slash endpoint) payload [0, 1, 2] first_vars w
             = (Raise e, w')"
  then show "post_legifrance E endpoint payload w = (Inl e, w')"
    by (blast intro: raise_leaves_call)
next
  assume h: "normalize_code_title (Some code_hint) = Some ct \<and> ct \<noteq> []
        \<and> normalize_article_num (Some article_hint) = Some an \<and> an \<noteq> []
        \<and> search_payload_code_article ct an dh = Inr q
        \<and> lf_search E q w = (Inl (LegifranceAuthError a), w1)"
  then have "search_phase E q ct w = lf_search E (fallback_payload_code_only ct) w1"
    by (simp add: search_phase_def)
  with h resolve_after_search [of code_hint ct article_hint an dh q E w]
  show "resolve_code_article E code_hint article_hint dh w =
        (case lf_search E (fallback_payload_code_only ct) w1 of
           (Inl e2, w2) \<Rightarrow> (Inl e2, w2)
         | (Inr search_resp, w2) \<Rightarrow> decide_phase E ct an dh search_resp w2)"
    by simp
qed

lemma token_down_first:
  "get_token token_down_once cold_world
     = (Inl (LegifranceAuthError (TokenStatus 500 ''error page'')),
        \<lparr>access_token = JNull, token_expires_at = None, requests = 1, readings = 2,
         trace = [TokenPost ''https://oauth/token''
                    [(''grant_type'', ''client_credentials''), (''client_id'', ''client''),
                     (''client_secret'', ''secret''), (''scope'', ''openid'')]]\<rparr>)"
  by (simp add: token_down_once_def run_defs)

lemma stale_first_post:
  "do_post stale_then_token_down search_url (JDict []) warm_world
    = (Inr \<lparr>status_code = 401, resp_text = ''error page'', resp_json = None\<rparr>,
       \<lparr>access_token = JStr ''T0'', token_expires_at = Some 5000, requests = 1, readings = 1,
        trace = [ApiPost search_url (JStr ''T0'') (JDict [])]\<rparr>)"
  by (simp add: stale_then_token_down_def run_defs)

lemma stale_token_down:
  "get_token stale_then_token_down
     (invalidate_token_cache
        \<lparr>access_token = JStr ''T0'', token_expires_at = Some 5000, requests = 1, readings = 1,
         trace = [ApiPost search_url (JStr ''T0'') (JDict [])]\<rparr>)
     = (Inl (LegifranceAuthError (TokenStatus 500 ''error page'')),
        \<lparr>access_token = JNull, token_expires_at = None, requests = 2, readings = 3,
         trace = [ApiPost search_url (JStr ''T0'') (JDict []), Invalidate,
                  TokenPost ''https://oauth/token''
                    [(''grant_type'', ''client_credentials''), (''client_id'', ''client''),
                     (''client_secret'', ''secret''), (''scope'', ''openid'')]]\<rparr>)"
  by (simp add: stale_then_token_down_def run_defs)

lemma no_credentials_search:
  "lf_search no_credentials q cold_world
     = (Inl (LegifranceAuthError MissingCredentials),
        \<lparr>access_token = JNull, token_expires_at = None, requests = 0, readings = 2,
         trace = []\<rparr>)"
  by (simp add: lf_search_def no_credentials_def run_defs)

text \<open>
  The amended claim at work: the token endpoint down at the first request of a call, and
  down at the refresh that follows a 401 (one request each, no sleep); and, without
  credentials, the primary search and then the fallback search raising the
  authentication error, which is the outcome, nothing having been sent.
\<close>

theorem auth_error_examples:
  "post_legifrance token_down_once ''search'' (JDict []) cold_world
     = (Inl (LegifranceAuthError (TokenStatus 500 ''error page'')),
        \<lparr>access_token = JNull, token_expires_at = None, requests = 1, readings = 2,
         trace = [TokenPost ''https://oauth/token''
                    [(''grant_type'', ''client_credentials''), (''client_id'', ''client''),
                     (''client_secret'', ''secret''), (''scope'', ''openid'')]]\<rparr>)
   \<and> fst (post_legifrance stale_then_token_down ''search'' (JDict []) warm_world)
       = Inl (LegifranceAuthError (TokenStatus 500 ''error page''))
   \<and> slept (snd (post_legifrance stale_then_token_down ''search'' (JDict []) warm_world)) = []
   \<and> requests (snd (post_legifrance stale_then_token_down ''search'' (JDict []) warm_world)) = 2
   \<and> resolve_code_article no_credentials ''Code du travail'' ''L 1221-1'' None cold_world
       = (Inl (LegifranceAuthError MissingCredentials),
          \<lparr>access_token = JNull, token_expires_at = None, requests = 0, readings = 4,
           trace = []\<rparr>)"
proof -
  note t = auth_error_ends_call_not_resolution
  have u: "''https://api/lf-engine-app/consult'' @ ''/'' @ lstrip_slash ''search'' = search_url"
    by (simp add: run_defs)
  have b1: "ensure_consult_base (LEGIFRANCE_API_BASE token_down_once)
              = Inr ''https://api/lf-engine-app/consult''"
    unfolding token_down_once_def by (rule base_of_env)
  have b2: "ensure_consult_base (LEGIFRANCE_API_BASE stale_then_token_down)
              = Inr ''https://api/lf-engine-app/consult''"
    unfolding stale_then_token_down_def by (rule base_of_env)
  have l1: "retry_loop token_down_once
              (''https://api/lf-engine-app/consult'' @ ''/'' @ lstrip_slash ''search'')
              (JDict []) [0, 1, 2] first_vars cold_world
      = (Raise (LegifranceAuthError (TokenStatus 500 ''error page'')),
        \<lparr>access_token = JNull, token_expires_at = None, requests = 1, readings = 2,
         trace = [TokenPost ''https://oauth/token''
                    [(''grant_type'', ''client_credentials''), (''client_id'', ''client''),
                     (''client_secret'', ''secret''), (''scope'', ''openid'')]]\<rparr>)"
    using t [THEN conjunct1, THEN mp, OF token_down_first] .
  have c1: "post_legifrance token_down_once ''search'' (JDict []) cold_world
     = (Inl (LegifranceAuthError (TokenStatus 500 ''error page'')),
        \<lparr>access_token = JNull, token_expires_at = None, requests = 1, readings = 2,
         trace = [TokenPost ''https://oauth/token''
                    [(''grant_type'', ''client_credentials''), (''client_id'', ''client''),
                     (''client_secret'', ''secret''), (''scope'', ''openid'')]]\<rparr>)"
    by (rule t [THEN conjunct2, THEN conjunct2, THEN conjunct1, THEN mp, OF conjI [OF b1 l1]])
  have l2: "retry_loop stale_then_token_down search_url (JDict []) [0, 1, 2] first_vars warm_world
      = (Raise (LegifranceAuthError (TokenStatus 500 ''error page'')),
        \<lparr>access_token = JNull, token_expires_at = None, requests = 2, readings = 3,
         trace = [ApiPost search_url (JStr ''T0'') (JDict []), Invalidate,
                  TokenPost ''https://oauth/token''
                    [(''grant_type'', ''client_credentials''), (''client_id'', ''client''),
                     (''client_secret'', ''secret''), (''scope'', ''openid'')]]\<rparr>)"
    by (rule t [THEN conjunct2, THEN conjunct1, THEN mp])
       (intro conjI, rule stale_first_post, simp, simp add: first_vars_def, rule stale_token_down)
  have c2: "post_legifrance stale_then_token_down ''search'' (JDict []) warm_world
      = (Inl (LegifranceAuthError (TokenStatus 500 ''error page'')),
        \<lparr>access_token = JNull, token_expires_at = None, requests = 2, readings = 3,
         trace = [ApiPost search_url (JStr ''T0'') (JDict []), Invalidate,
                  TokenPost ''https://oauth/token''
                    [(''grant_type'', ''client_credentials''), (''client_id'', ''client''),
                     (''client_secret'', ''secret''), (''scope'', ''openid'')]]\<rparr>)"
  proof (rule t [THEN conjunct2, THEN conjunct2, THEN conjunct1, THEN mp], intro conjI)
    show "ensure_consult_base (LEGIFRANCE_API_BASE stale_then_token_down)
              = Inr ''https://api/lf-engine-app/consult''"
      by (rule b2)
    show "retry_loop stale_then_token_down
              (''https://api/lf-engine-app/consult'' @ ''/'' @ lstrip_slash ''search'')
              (JDict []) [0, 1, 2] first_vars warm_world
      = (Raise (LegifranceAuthError (TokenStatus 500 ''error page'')),
        \<lparr>access_token = JNull, token_expires_at = None, requests = 2, readings = 3,
         trace = [ApiPost search_url (JStr ''T0'') (JDict []), Invalidate,
                  TokenPost ''https://oauth/token''
                    [(''grant_type'', ''client_credentials''), (''client_id'', ''client''),
                     (''client_secret'', ''secret''), (''scope'', ''openid'')]]\<rparr>)"
      using l2 by (simp only: u)
  qed
  obtain q where q: "search_payload_code_article ''Code du travail'' ''L1221-1'' None = Inr q"
    using payload_without_date by blast
  have "resolve_code_article no_credentials ''Code du travail'' ''L 1221-1'' None cold_world
      = (case lf_search no_credentials (fallback_payload_code_only ''Code du travail'')
           \<lparr>access_token = JNull, token_expires_at = None, requests = 0, readings = 2,
            trace = []\<rparr> of
           (Inl e2, w2) \<Rightarrow> (Inl e2, w2)
         | (Inr search_resp, w2) \<Rightarrow>
             decide_phase no_credentials ''Code du travail'' ''L1221-1'' None search_resp w2)"
    using t [THEN conjunct2, THEN conjunct2, THEN conjunct2, THEN mp,
        of "''Code du travail''" "''Code du travail''" "''L 1221-1''" "''L1221-1''" None q
           no_credentials cold_world]
      code_du_travail l1221_1 q no_credentials_search
    by simp
  then have c3: "resolve_code_article no_credentials ''Code du travail'' ''L 1221-1'' None cold_world
       = (Inl (LegifranceAuthError MissingCredentials),
          \<lparr>access_token = JNull, token_expires_at = None, requests = 0, readings = 4,
           trace = []\<rparr>)"
    by (simp add: lf_search_def no_credentials_def run_defs)
  show ?thesis
    by (simp add: c1 c2 c3 slept_def sleeps_of_def)
qed

section \<open>The token cache\<close>











end
